theory Spec2Isabelle
  imports Complex_Main "HOL-Library.Sublist" "HOL-Library.Word"
begin

section \<open>Configuration\<close>

text \<open>
  \<^verbatim>\<open>API_CONFIG\<close> of \<^verbatim>\<open>script.js\<close> (lines 4 to 16). The functions below take the
  configuration as an argument, so that a statement can be made for every configuration
  and read off at the shipped one. Counts are natural numbers, times are integers of
  milliseconds (a window start can lie before the epoch).
\<close>

record api_config =
  maxRetries :: nat
  retryDelay :: nat
  maxRetryDelay :: nat
  rateLimitPerMinute :: nat
  rateLimitResetTime :: int
  fallbackModels :: "string list"
  fallbackModel :: string

definition API_CONFIG :: api_config where
  "API_CONFIG =
     \<lparr> maxRetries = 3,
       retryDelay = 1000,
       maxRetryDelay = 10000,
       rateLimitPerMinute = 20,
       rateLimitResetTime = 60000,
       fallbackModels = [''gpt-4o-mini'', ''gpt-4o'', ''gpt-3.5-turbo''],
       fallbackModel = ''gpt-4o-mini'' \<rparr>"

section \<open>Numbers\<close>

text \<open>
  A Number of the source is a double. The ones that arise here are the values of decimal
  texts, so a Number is given as the rational it is, or as one of the two infinities;
  the two zeros are not told apart, since both print as \<^verbatim>\<open>0\<close> and both count as false.
\<close>

datatype jsnumber = Finite rat | PlusInfinity | MinusInfinity

definition pow2 :: "int \<Rightarrow> rat" where
  "pow2 e = (if 0 \<le> e then 2 ^ nat e else 1 / 2 ^ nat (- e))"

definition pow10 :: "int \<Rightarrow> rat" where
  "pow10 e = (if 0 \<le> e then 10 ^ nat e else 1 / 10 ^ nat (- e))"

text \<open>The number of binary and of decimal digits of a positive integer.\<close>

function bitLength :: "int \<Rightarrow> int" where
  "bitLength n = (if n \<le> 0 then 0 else 1 + bitLength (n div 2))"
  by pat_completeness auto
termination
  by (relation "measure nat") auto

declare bitLength.simps [simp del]

function digitLength :: "int \<Rightarrow> int" where
  "digitLength n = (if n \<le> 0 then 0 else 1 + digitLength (n div 10))"
  by pat_completeness auto
termination
  by (relation "measure nat") auto

declare digitLength.simps [simp del]

text \<open>
  For a positive rational \<open>x\<close>: the integer \<open>d\<close> with \<open>2 ^ d \<le> x < 2 ^ (d + 1)\<close>, and
  the one with \<open>10 ^ d \<le> x < 10 ^ (d + 1)\<close>. The difference of the digit counts of
  numerator and denominator is \<open>d\<close> or \<open>d + 1\<close>.
\<close>

definition floorLog2 :: "rat \<Rightarrow> int" where
  "floorLog2 x =
     (case quotient_of x of
        (p, q) \<Rightarrow>
          (let d = bitLength p - bitLength q
           in if pow2 d \<le> x then d else d - 1))"

definition floorLog10 :: "rat \<Rightarrow> int" where
  "floorLog10 x =
     (case quotient_of x of
        (p, q) \<Rightarrow>
          (let d = digitLength p - digitLength q
           in if pow10 d \<le> x then d else d - 1))"

text \<open>Rounding to the nearest integer, a tie going to the even one.\<close>

definition roundHalfEven :: "rat \<Rightarrow> int" where
  "roundHalfEven x =
     (let f = \<lfloor>x\<rfloor>; r = x - of_int f
      in if r < 1 / 2 then f
         else if 1 / 2 < r then f + 1
         else if even f then f else f + 1)"

text \<open>
  The double nearest to a rational: 53 significant bits, no exponent below \<open>-1074\<close>, and
  an infinity from \<open>2 ^ 1024\<close> on.
\<close>

definition toDouble :: "rat \<Rightarrow> jsnumber" where
  "toDouble x =
     (if x = 0 then Finite 0
      else
        (let a = \<bar>x\<bar>;
             e = max (floorLog2 a - 52) (- 1074);
             v = of_int (roundHalfEven (a / pow2 e)) * pow2 e
         in if pow2 1024 \<le> v then (if 0 < x then PlusInfinity else MinusInfinity)
            else Finite (if 0 < x then v else - v)))"

text \<open>
  \<^verbatim>\<open>Number::toString\<close> for a positive double \<open>x\<close>: the fewest digits \<open>s\<close>, with the
  decimal exponent \<open>n\<close>, such that \<open>s * 10 ^ (n - k)\<close> reads back as \<open>x\<close>, \<open>k\<close> being the
  number of digits; among several of that length the nearest to \<open>x\<close>, and the even one of
  two equally near. \<open>shortestDigits fuel k x n\<close> tries \<open>k\<close>, \<open>k + 1\<close>, ... digits; 17
  always suffice.
\<close>

fun shortestDigits :: "nat \<Rightarrow> nat \<Rightarrow> rat \<Rightarrow> int \<Rightarrow> int \<times> int" where
  "shortestDigits 0 k x n = (\<lfloor>x / pow10 (n - int k)\<rfloor>, n)"
| "shortestDigits (Suc fuel) k x n =
     (let unit = pow10 (n - int k);
          lo = \<lfloor>x / unit\<rfloor>;
          hi = lo + 1;
          loBack = (toDouble (of_int lo * unit) = Finite x);
          hiBack = (toDouble (of_int hi * unit) = Finite x);
          dLo = x - of_int lo * unit;
          dHi = of_int hi * unit - x;
          s = (if loBack \<and> hiBack
               then (if dLo < dHi then lo else if dHi < dLo then hi
                     else if even lo then lo else hi)
               else if loBack then lo else hi)
      in if loBack \<or> hiBack
         then (if s = 10 ^ k then (10 ^ (k - 1), n + 1) else (s, n))
         else shortestDigits fuel (Suc k) x n)"

text \<open>The decimal digits of a non-negative integer of any size.\<close>

function digitsOf :: "int \<Rightarrow> string" where
  "digitsOf n =
     (if n < 10 then [''0123456789'' ! nat n]
      else digitsOf (n div 10) @ [''0123456789'' ! nat (n mod 10)])"
  by pat_completeness auto
termination
  by (relation "measure nat") auto

declare digitsOf.simps [simp del]

definition positiveToString :: "rat \<Rightarrow> string" where
  "positiveToString x =
     (case shortestDigits 17 1 x (floorLog10 x + 1) of
        (s, n) \<Rightarrow>
          (let ds = digitsOf s; k = int (length ds)
           in if k \<le> n \<and> n \<le> 21 then ds @ replicate (nat (n - k)) CHR ''0''
              else if 0 < n \<and> n \<le> 21 then take (nat n) ds @ ''.'' @ drop (nat n) ds
              else if - 6 < n \<and> n \<le> 0 then ''0.'' @ replicate (nat (- n)) CHR ''0'' @ ds
              else
                (let e = n - 1;
                     es = (if e < 0 then ''-'' else ''+'') @ digitsOf \<bar>e\<bar>
                 in if k = 1 then ds @ ''e'' @ es
                    else take 1 ds @ ''.'' @ drop 1 ds @ ''e'' @ es)))"

definition numberToString :: "jsnumber \<Rightarrow> string" where
  "numberToString v =
     (case v of
        PlusInfinity \<Rightarrow> ''Infinity''
      | MinusInfinity \<Rightarrow> ''-Infinity''
      | Finite x \<Rightarrow>
          if x = 0 then ''0''
          else if x < 0 then ''-'' @ positiveToString (- x)
          else positiveToString x)"

section \<open>Usage monitor\<close>

text \<open>
  An entry of \<^verbatim>\<open>apiUsageMonitor.usageLog\<close>. The source stores the time as an ISO string
  (\<^verbatim>\<open>new Date().toISOString()\<close>) and reads it back with \<^verbatim>\<open>new Date(s).getTime()\<close>; the
  round trip returns the millisecond count it started from, which is what the field holds.
\<close>

record log_entry =
  timestamp :: int
  endpoint :: string
  model :: string
  success :: bool
  errorCode :: "jsnumber option"

text \<open>The object \<^verbatim>\<open>apiUsageMonitor\<close>: its two data properties, and its initial value.\<close>

record usage_monitor =
  usageLog :: "log_entry list"
  maxLogSize :: nat

definition apiUsageMonitor :: usage_monitor where
  "apiUsageMonitor = \<lparr> usageLog = [], maxLogSize = 100 \<rparr>"

text \<open>The two \<^verbatim>\<open>console.warn\<close> lines of \<^verbatim>\<open>checkForSuspiciousActivity\<close>.\<close>

datatype alert = HighFailureRate | RapidCalls

text \<open>
  The loop \<^verbatim>\<open>for (i = 1; i < timestamps.length; i++) timeDiffs.push(timestamps[i-1] - timestamps[i])\<close>.
\<close>

fun timeDiffs :: "int list \<Rightarrow> int list" where
  "timeDiffs (a # b # ts) = (a - b) # timeDiffs (b # ts)"
| "timeDiffs _ = []"

text \<open>
  \<^verbatim>\<open>checkForSuspiciousActivity\<close>, returning the warnings it prints, in order. The two
  quotients are doubles in the source; they are rationals here. Both comparisons come out
  the same: a quotient of two counts with denominator at most 20 that differs from
  \<open>7/10\<close> differs by at least \<open>1/200\<close>, a mean of at most 19 integers that differs from
  \<open>500\<close> differs by at least \<open>1/19\<close>, and \<open>7/10\<close> itself rounds to the literal \<^verbatim>\<open>0.7\<close>.
\<close>

definition avgTimeBetweenCalls :: "log_entry list \<Rightarrow> rat" where
  "avgTimeBetweenCalls recentCalls =
     (let timestamps = map timestamp recentCalls;
          diffs = timeDiffs timestamps
      in of_int (sum_list diffs) / of_nat (length diffs))"

definition highFailureRate :: "log_entry list \<Rightarrow> bool" where
  "highFailureRate recentCalls =
     (let failedCalls = filter (\<lambda>call. \<not> success call) recentCalls
      in length recentCalls \<ge> 5 \<and>
         (of_nat (length failedCalls) :: rat) / of_nat (length recentCalls) > 7 / 10)"

definition rapidCalls :: "log_entry list \<Rightarrow> bool" where
  "rapidCalls recentCalls =
     (if length recentCalls \<ge> 5 then avgTimeBetweenCalls recentCalls < 500 else False)"

definition checkForSuspiciousActivity :: "usage_monitor \<Rightarrow> alert list" where
  "checkForSuspiciousActivity m =
     (let recentCalls = take 20 (usageLog m)
      in (if highFailureRate recentCalls then [HighFailureRate] else []) @
         (if rapidCalls recentCalls then [RapidCalls] else []))"

text \<open>
  \<^verbatim>\<open>logApiCall\<close>: \<^verbatim>\<open>unshift\<close>, then one \<^verbatim>\<open>pop\<close> when the log is longer than
  \<^verbatim>\<open>maxLogSize\<close>, then the check. \<open>now\<close> is the reading of \<^verbatim>\<open>new Date()\<close>. The result is
  the monitor after the call and the warnings printed.
\<close>

definition logApiCall ::
  "int \<Rightarrow> string \<Rightarrow> string \<Rightarrow> bool \<Rightarrow> jsnumber option \<Rightarrow> usage_monitor \<Rightarrow>
   usage_monitor \<times> alert list" where
  "logApiCall now ep mdl ok code m =
     (let entry = \<lparr> timestamp = now, endpoint = ep, model = mdl, success = ok, errorCode = code \<rparr>;
          log1 = entry # usageLog m;
          log2 = (if length log1 > maxLogSize m then butlast log1 else log1);
          m' = m\<lparr> usageLog := log2 \<rparr>
      in (m', checkForSuspiciousActivity m'))"

text \<open>
  \<^verbatim>\<open>getUsageStats\<close>. The object it returns has three properties for the empty log and
  four otherwise, so \<open>successRate\<close> is optional. Its property \<^verbatim>\<open>success\<close> is the field
  \<open>successes\<close> here, the name \<open>success\<close> being taken by the log entries. The source
  renders the rate with \<^verbatim>\<open>toFixed(1) + '%'\<close>, a formatting of a double; the field holds
  the exact percentage that is formatted. The monitor is returned beside the result, as
  it is after the call.
\<close>

record usage_stats =
  total :: nat
  successes :: nat
  failure :: nat
  successRate :: "rat option"

definition getUsageStats :: "usage_monitor \<Rightarrow> usage_stats \<times> usage_monitor" where
  "getUsageStats m =
     (if length (usageLog m) = 0
      then (\<lparr> total = 0, successes = 0, failure = 0, successRate = None \<rparr>, m)
      else
        (let n = length (usageLog m);
             s = length (filter (\<lambda>call. success call) (usageLog m));
             f = n - s
         in (\<lparr> total = n, successes = s, failure = f,
               successRate = Some (of_nat s / of_nat n * 100) \<rparr>, m)))"

text \<open>The monitors that arise: the initial one, and whatever \<^verbatim>\<open>logApiCall\<close> makes of them.\<close>

inductive monitor_reachable :: "usage_monitor \<Rightarrow> bool" where
  initial: "monitor_reachable apiUsageMonitor"
| logged: "monitor_reachable m \<Longrightarrow> monitor_reachable (fst (logApiCall now ep mdl ok code m))"

text \<open>
  The cadence heuristic in the specification's words, to compare with the code: the mean
  of the absolute time differences between consecutive calls.
\<close>

definition spec_meanAbsTimeDelta :: "log_entry list \<Rightarrow> rat" where
  "spec_meanAbsTimeDelta recentCalls =
     (let diffs = timeDiffs (map timestamp recentCalls)
      in of_int (sum_list (map abs diffs)) / of_nat (length diffs))"

text \<open>A log whose times do not increase from the front to the back.\<close>

definition newestFirst :: "log_entry list \<Rightarrow> bool" where
  "newestFirst calls = sorted (rev (map timestamp calls))"

text \<open>Recording a list of chat calls, given by time and outcome, oldest first.\<close>

fun logCalls :: "(int \<times> bool) list \<Rightarrow> usage_monitor \<Rightarrow> usage_monitor" where
  "logCalls [] m = m"
| "logCalls ((now, ok) # cs) m = logCalls cs (fst (logApiCall now ''chat'' ''gpt-4o'' ok None m))"

text \<open>
  Two call histories used below. The first has ten calls half a second apart, seven of
  them failed. In the second the wall clock is set back by 43 seconds before the fifth
  call.
\<close>

definition boundaryCalls :: "(int \<times> bool) list" where
  "boundaryCalls =
      [(0, False), (500, False), (1000, False), (1500, False), (2000, False),
       (2500, False), (3000, False), (3500, True), (4000, True), (4500, True)]"

definition clockSetBackCalls :: "(int \<times> bool) list" where
  "clockSetBackCalls = [(100000, True), (101000, True), (102000, True), (103000, True)]"

text \<open>
  A third history: one hundred successful calls a second apart, the first at time 0. It
  fills the log of the initial monitor to its capacity.
\<close>

definition hundredCalls :: "(int \<times> bool) list" where
  "hundredCalls = map (\<lambda>i. (1000 * int i, True)) [0..<100]"

definition fullMonitor :: usage_monitor where
  "fullMonitor = logCalls hundredCalls apiUsageMonitor"

section \<open>Request queue\<close>

text \<open>
  The object \<^verbatim>\<open>apiRequestQueue\<close>. Each method reads \<^verbatim>\<open>Date.now()\<close>; the reading is an
  argument here. \<^verbatim>\<open>getWaitTime\<close> reads the clock twice, once inside \<^verbatim>\<open>canMakeRequest\<close>
  and once itself.
\<close>

record request_queue =
  requests :: "int list"

definition apiRequestQueue :: request_queue where
  "apiRequestQueue = \<lparr> requests = [] \<rparr>"

definition cleanup :: "api_config \<Rightarrow> int \<Rightarrow> request_queue \<Rightarrow> request_queue" where
  "cleanup cfg currentTime q =
     (let windowStart = currentTime - rateLimitResetTime cfg
      in q\<lparr> requests := filter (\<lambda>timestamp. timestamp \<ge> windowStart) (requests q) \<rparr>)"

definition addRequest :: "api_config \<Rightarrow> int \<Rightarrow> request_queue \<Rightarrow> request_queue" where
  "addRequest cfg now q = cleanup cfg now (q\<lparr> requests := requests q @ [now] \<rparr>)"

definition canMakeRequest :: "api_config \<Rightarrow> int \<Rightarrow> request_queue \<Rightarrow> bool \<times> request_queue" where
  "canMakeRequest cfg now q =
     (let q' = cleanup cfg now q
      in (length (requests q') < rateLimitPerMinute cfg, q'))"

definition getWaitTime :: "api_config \<Rightarrow> int \<Rightarrow> int \<Rightarrow> request_queue \<Rightarrow> int \<times> request_queue" where
  "getWaitTime cfg now1 now q =
     (case canMakeRequest cfg now1 q of
        (True, q1) \<Rightarrow> (0, q1)
      | (False, q1) \<Rightarrow>
          (let q2 = cleanup cfg now q1
           in case requests q2 of
                [] \<Rightarrow> (0, q2)
              | oldestRequest # _ \<Rightarrow>
                  (max 0 ((oldestRequest + rateLimitResetTime cfg) - now), q2)))"

section \<open>Text helpers\<close>

text \<open>
  \<^verbatim>\<open>String.prototype.includes\<close>: the pattern occurs somewhere in the text. Written for
  lists of any element, since the text of the stream decoder below is made of 16-bit code
  units.
\<close>

fun js_includes :: "'a list \<Rightarrow> 'a list \<Rightarrow> bool" where
  "js_includes [] pat = (pat = [])"
| "js_includes (c # cs) pat = (take (length pat) (c # cs) = pat \<or> js_includes cs pat)"

definition startsWith :: "'a list \<Rightarrow> 'a list \<Rightarrow> bool" where
  "startsWith s pat = (take (length pat) s = pat)"

text \<open>The decimal digits a template literal prints for a non-negative integer.\<close>

fun decimal :: "nat \<Rightarrow> string" where
  "decimal n =
     (if n < 10 then [''0123456789'' ! n]
      else decimal (n div 10) @ [''0123456789'' ! (n mod 10)])"

declare decimal.simps [simp del]

definition isDigit :: "char \<Rightarrow> bool" where
  "isDigit c = (c \<in> set ''0123456789'')"

definition digitValue :: "char \<Rightarrow> int" where
  "digitValue c = int (of_char c) - 48"

text \<open>
  The class \<^verbatim>\<open>\s\<close> of a JavaScript regular expression, on the characters a \<open>string\<close>
  has: tab, line feed, vertical tab, form feed, carriage return, space and U+00A0.
\<close>

definition isSpace :: "char \<Rightarrow> bool" where
  "isSpace c = (of_char c \<in> {9, 10, 11, 12, 13, 32, 160 :: nat})"

text \<open>\<^verbatim>\<open>parseInt\<close> of a run of decimal digits: the double nearest to the integer written.\<close>

definition parseInt :: "string \<Rightarrow> jsnumber" where
  "parseInt ds = toDouble (of_int (foldl (\<lambda>acc d. 10 * acc + digitValue d) 0 ds))"

text \<open>
  \<^verbatim>\<open>error.message.match(/API request failed: (\d+)/)\<close>: the digits captured at the first
  place where the pattern matches.
\<close>

fun statusMatch :: "string \<Rightarrow> string option" where
  "statusMatch [] = None"
| "statusMatch (c # cs) =
     (let rest = drop (length ''API request failed: '') (c # cs)
      in if startsWith (c # cs) ''API request failed: '' \<and> takeWhile isDigit rest \<noteq> []
         then Some (takeWhile isDigit rest)
         else statusMatch cs)"

text \<open>
  \<^verbatim>\<open>error.message.replace(/^(API request failed:|Fallback API request failed:)\s*\d+\s*/, '')\<close>.
\<close>

definition stripStatus :: "string \<Rightarrow> string option" where
  "stripStatus rest =
     (let r1 = dropWhile isSpace rest
      in if takeWhile isDigit r1 = [] then None
         else Some (dropWhile isSpace (dropWhile isDigit r1)))"

definition stripFailurePrefix :: "string \<Rightarrow> string" where
  "stripFailurePrefix msg =
     (let p1 = ''API request failed:''; p2 = ''Fallback API request failed:'';
          m = (if startsWith msg p1 then stripStatus (drop (length p1) msg)
               else if startsWith msg p2 then stripStatus (drop (length p2) msg)
               else None)
      in case m of Some r \<Rightarrow> r | None \<Rightarrow> msg)"

section \<open>Retry delay\<close>

text \<open>
  \<^verbatim>\<open>getRetryDelay\<close>. \<open>rnd\<close> is the value \<^verbatim>\<open>Math.random()\<close> returns, in \<open>[0, 1)\<close>. The
  source computes in doubles, where \<^verbatim>\<open>Math.pow(2, retryCount)\<close> becomes infinite for a
  large count and the minimum is then the ceiling, as it is here.
\<close>

definition getRetryDelay :: "api_config \<Rightarrow> rat \<Rightarrow> nat \<Rightarrow> rat" where
  "getRetryDelay cfg rnd n =
     (let delay = min (of_nat (maxRetryDelay cfg)) (of_nat (retryDelay cfg) * 2 ^ n)
      in delay + rnd * 1000)"

section \<open>Fallback cascade\<close>

text \<open>
  What awaiting an executable call gives: a result, or a thrown value. A thrown value is
  \<^verbatim>\<open>undefined\<close> or \<^verbatim>\<open>null\<close>, or it is given by its \<^verbatim>\<open>message\<close> property: a text, or
  nothing when it has none.
\<close>

datatype 'r outcome = Resolved 'r | Rejected "string option" | RejectedNullish

text \<open>
  What the function itself throws: an \<^verbatim>\<open>Error\<close> it builds, with its message, or the
  \<^verbatim>\<open>TypeError\<close> of reading \<^verbatim>\<open>error.message\<close> (line 225) when the value caught is
  \<^verbatim>\<open>undefined\<close> or \<^verbatim>\<open>null\<close>.
\<close>

datatype thrown = Error string | TypeError

text \<open>
  An executable call is an action on the outside world. The cascade awaits its calls one
  after the other, so a call is given by what it yields when it is the \<open>n\<close>-th physical
  attempt of the logical request, counted from 0.
\<close>

type_synonym 'r apicall = "nat \<Rightarrow> 'r outcome"

text \<open>
  The rest of the outside world: the readings of the clock and the draws of
  \<^verbatim>\<open>Math.random()\<close>. One pass of the loop reads the clock at up to five places, numbered
  0: \<^verbatim>\<open>canMakeRequest\<close> at the top of the pass; 1 and 2: the two readings of
  \<^verbatim>\<open>getWaitTime\<close>; 3: \<^verbatim>\<open>addRequest\<close>; 4: \<^verbatim>\<open>logApiCall\<close>. It draws at most one random
  number.
\<close>

record environment =
  clock :: "nat \<Rightarrow> nat \<Rightarrow> int"
  random :: "nat \<Rightarrow> rat"

text \<open>What a run does that an observer can see, in order.\<close>

datatype event =
    Attempt int nat
  | Failed "string option"
  | Waited rat
  | FallbackCreated string int
  | Notified int string

text \<open>The local variables of \<^verbatim>\<open>makeApiRequestWithMultiFallback\<close> and the two shared objects.\<close>

record 'r cascade =
  retryCount :: nat
  fallbackLevel :: int
  currentApiCall :: "'r apicall"
  attempts :: nat
  queue :: request_queue
  monitor :: usage_monitor
  trace :: "event list"

datatype 'r step = Continue "'r cascade" | Return 'r "'r cascade" | Throw thrown "'r cascade"

text \<open>Lines 199 to 206: the admission check, the wait when it fails, and \<^verbatim>\<open>addRequest\<close>.\<close>

definition admit :: "api_config \<Rightarrow> environment \<Rightarrow> nat \<Rightarrow> request_queue \<Rightarrow> request_queue \<times> event list" where
  "admit cfg env n q =
     (case canMakeRequest cfg (clock env n 0) q of
        (True, q1) \<Rightarrow> (addRequest cfg (clock env n 3) q1, [])
      | (False, q1) \<Rightarrow>
          (case getWaitTime cfg (clock env n 1) (clock env n 2) q1 of
             (waitTime, q2) \<Rightarrow> (addRequest cfg (clock env n 3) q2, [Waited (of_int waitTime)])))"

definition currentModel :: "api_config \<Rightarrow> string \<Rightarrow> int \<Rightarrow> string" where
  "currentModel cfg mdl level =
     (if level = -1 then mdl
      else if level < int (length (fallbackModels cfg)) then fallbackModels cfg ! nat level
      else ''unknown-fallback'')"

text \<open>\<^verbatim>\<open>error.message && error.message.includes('429')\<close>.\<close>

definition rateLimited :: "string option \<Rightarrow> bool" where
  "rateLimited msg = (case msg of None \<Rightarrow> False | Some m \<Rightarrow> m \<noteq> [] \<and> js_includes m ''429'')"

text \<open>What \<^verbatim>\<open>${error.message}\<close> prints.\<close>

definition messageText :: "string option \<Rightarrow> string" where
  "messageText msg = (case msg of None \<Rightarrow> ''undefined'' | Some m \<Rightarrow> m)"

text \<open>
  \<^verbatim>\<open>showFallbackNotification\<close> changes the page only when there is a target element and
  the level is 0 or 1.
\<close>

definition showFallbackNotification :: "bool \<Rightarrow> int \<Rightarrow> string \<Rightarrow> event list" where
  "showFallbackNotification targetElement level errorMessage =
     (if \<not> targetElement then []
      else if level = 0 \<or> level = 1 then [Notified level errorMessage]
      else [])"

text \<open>
  The \<^verbatim>\<open>catch\<close> block, lines 219 to 279, for the attempt numbered \<open>n\<close>. \<open>ep\<close> and \<open>mdl\<close>
  are the endpoint and model names the source reads off the text of the call's closure.
\<close>

definition onError ::
  "api_config \<Rightarrow> environment \<Rightarrow> string \<Rightarrow> string \<Rightarrow> (string \<Rightarrow> int \<Rightarrow> 'r apicall) \<Rightarrow> bool \<Rightarrow>
   nat \<Rightarrow> string option \<Rightarrow> 'r cascade \<Rightarrow> 'r step" where
  "onError cfg env ep mdl createFallbackCall targetElement n msg s =
     (let errorCode = (case msg of
                         Some m \<Rightarrow> if m \<noteq> [] then map_option parseInt (statusMatch m) else None
                       | None \<Rightarrow> None);
          errorMessage = (case msg of
                            Some m \<Rightarrow> if m \<noteq> [] then stripFailurePrefix m else []
                          | None \<Rightarrow> []);
          s1 = s\<lparr> monitor := fst (logApiCall (clock env n 4) ep
                                    (currentModel cfg mdl (fallbackLevel s)) False errorCode (monitor s)) \<rparr>;
          lastLevel = int (length (fallbackModels cfg)) - 1;
          after =
            (if rateLimited msg then
               Inr (s1\<lparr> retryCount := retryCount s1 + 1,
                        trace := trace s1 @ [Waited (5000 + getRetryDelay cfg (random env n) (retryCount s1))] \<rparr>)
             else if retryCount s1 < maxRetries cfg then
               Inr (s1\<lparr> retryCount := retryCount s1 + 1,
                        trace := trace s1 @ [Waited (getRetryDelay cfg (random env n) (retryCount s1))] \<rparr>)
             else if fallbackLevel s1 < lastLevel then
               (let level = fallbackLevel s1 + 1;
                    fm = fallbackModels cfg ! nat level
                in Inr (s1\<lparr> retryCount := 0,
                            fallbackLevel := level,
                            currentApiCall := createFallbackCall fm level,
                            trace := trace s1 @ [FallbackCreated fm level] @
                                     showFallbackNotification targetElement level errorMessage \<rparr>))
             else
               Inl (Error (''All fallback options exhausted. Last error: '' @ messageText msg)))
      in case after of
           Inl m \<Rightarrow> Throw m s1
         | Inr s2 \<Rightarrow>
             if retryCount s2 \<ge> maxRetries cfg \<and> fallbackLevel s2 \<ge> lastLevel
             then Throw (Error (''Failed after '' @ decimal (maxRetries cfg) @
                                '' retry attempts on all models: '' @ messageText msg)) s2
             else Continue s2)"

text \<open>
  One pass of \<^verbatim>\<open>while (true)\<close>, lines 196 to 280. When the value caught is
  \<^verbatim>\<open>undefined\<close> or \<^verbatim>\<open>null\<close>, the \<^verbatim>\<open>catch\<close> block throws at its first reading of the
  message, before anything is logged.
\<close>

definition iteration ::
  "api_config \<Rightarrow> environment \<Rightarrow> string \<Rightarrow> string \<Rightarrow> (string \<Rightarrow> int \<Rightarrow> 'r apicall) \<Rightarrow> bool \<Rightarrow>
   'r cascade \<Rightarrow> 'r step" where
  "iteration cfg env ep mdl createFallbackCall targetElement s =
     (let n = attempts s;
          (q, waited) = admit cfg env n (queue s);
          s1 = s\<lparr> queue := q, attempts := n + 1,
                  trace := trace s @ waited @ [Attempt (fallbackLevel s) (retryCount s)] \<rparr>
      in case currentApiCall s n of
           Resolved result \<Rightarrow>
             Return result
               (s1\<lparr> monitor := fst (logApiCall (clock env n 4) ep
                                      (currentModel cfg mdl (fallbackLevel s1)) True None (monitor s1)) \<rparr>)
         | Rejected msg \<Rightarrow>
             onError cfg env ep mdl createFallbackCall targetElement n msg
               (s1\<lparr> trace := trace s1 @ [Failed msg] \<rparr>)
         | RejectedNullish \<Rightarrow> Throw TypeError s1)"

text \<open>
  The loop. It has no bound of its own, so it is a partial function: \<open>None\<close> is a run that
  never returns, \<open>Some (Inr r, s)\<close> a run that returns \<open>r\<close>, \<open>Some (Inl f, s)\<close> a run that
  throws \<open>f\<close>; \<open>s\<close> is the state at that moment.
\<close>

partial_function (option) cascadeLoop ::
  "api_config \<Rightarrow> environment \<Rightarrow> string \<Rightarrow> string \<Rightarrow> (string \<Rightarrow> int \<Rightarrow> 'r apicall) \<Rightarrow> bool \<Rightarrow>
   'r cascade \<Rightarrow> ((thrown + 'r) \<times> 'r cascade) option" where
  "cascadeLoop cfg env ep mdl createFallbackCall targetElement s =
     (case iteration cfg env ep mdl createFallbackCall targetElement s of
        Continue s' \<Rightarrow> cascadeLoop cfg env ep mdl createFallbackCall targetElement s'
      | Return result s' \<Rightarrow> Some (Inr result, s')
      | Throw m s' \<Rightarrow> Some (Inl m, s'))"

definition initialCascade :: "'r apicall \<Rightarrow> request_queue \<Rightarrow> usage_monitor \<Rightarrow> 'r cascade" where
  "initialCascade apiCall q m =
     \<lparr> retryCount = 0, fallbackLevel = -1, currentApiCall = apiCall, attempts = 0,
       queue = q, monitor = m, trace = [] \<rparr>"

definition makeApiRequestWithMultiFallback ::
  "api_config \<Rightarrow> environment \<Rightarrow> string \<Rightarrow> string \<Rightarrow> 'r apicall \<Rightarrow> (string \<Rightarrow> int \<Rightarrow> 'r apicall) \<Rightarrow> bool \<Rightarrow>
   request_queue \<Rightarrow> usage_monitor \<Rightarrow> ((thrown + 'r) \<times> 'r cascade) option" where
  "makeApiRequestWithMultiFallback cfg env ep mdl apiCall createFallbackCall targetElement q m =
     cascadeLoop cfg env ep mdl createFallbackCall targetElement (initialCascade apiCall q m)"

text \<open>The first \<open>k\<close> passes of the loop, for statements about a run that does not end.\<close>

fun passes ::
  "nat \<Rightarrow> api_config \<Rightarrow> environment \<Rightarrow> string \<Rightarrow> string \<Rightarrow> (string \<Rightarrow> int \<Rightarrow> 'r apicall) \<Rightarrow> bool \<Rightarrow>
   'r cascade \<Rightarrow> 'r step" where
  "passes 0 cfg env ep mdl createFallbackCall targetElement s = Continue s"
| "passes (Suc k) cfg env ep mdl createFallbackCall targetElement s =
     (case passes k cfg env ep mdl createFallbackCall targetElement s of
        Continue s' \<Rightarrow> iteration cfg env ep mdl createFallbackCall targetElement s'
      | done \<Rightarrow> done)"

text \<open>Readings of the trace.\<close>

fun attemptLevels :: "event list \<Rightarrow> int list" where
  "attemptLevels [] = []"
| "attemptLevels (Attempt level r # es) = level # attemptLevels es"
| "attemptLevels (e # es) = attemptLevels es"

fun fallbacksCreated :: "event list \<Rightarrow> (string \<times> int) list" where
  "fallbacksCreated [] = []"
| "fallbacksCreated (FallbackCreated fm level # es) = (fm, level) # fallbacksCreated es"
| "fallbacksCreated (e # es) = fallbacksCreated es"

fun failures :: "event list \<Rightarrow> string option list" where
  "failures [] = []"
| "failures (Failed msg # es) = msg # failures es"
| "failures (e # es) = failures es"

fun stateOf :: "'r step \<Rightarrow> 'r cascade" where
  "stateOf (Continue s) = s"
| "stateOf (Return r s) = s"
| "stateOf (Throw m s) = s"

text \<open>Two ways a call can behave at every attempt.\<close>

definition failsEveryTime :: "'r apicall \<Rightarrow> bool" where
  "failsEveryTime c =
     (\<forall>n. case c n of
            Resolved r \<Rightarrow> False
          | Rejected msg \<Rightarrow> \<not> rateLimited msg
          | RejectedNullish \<Rightarrow> False)"

definition alwaysRateLimited :: "'r apicall \<Rightarrow> bool" where
  "alwaysRateLimited c =
     (\<forall>n. case c n of
            Resolved r \<Rightarrow> False
          | Rejected msg \<Rightarrow> rateLimited msg
          | RejectedNullish \<Rightarrow> False)"


definition attemptsMade :: "((thrown + 'r) \<times> 'r cascade) option \<Rightarrow> nat option" where
  "attemptsMade res = map_option (\<lambda>(r, s). attempts s) res"

definition tiersVisited :: "((thrown + 'r) \<times> 'r cascade) option \<Rightarrow> int list option" where
  "tiersVisited res = map_option (\<lambda>(r, s). remdups_adj (attemptLevels (trace s))) res"

text \<open>
  A concrete outside world for the examples: a server that answers every call with
  status 500, one that answers every call with status 429, a factory that hands out the
  same call for every tier, and a clock that advances by 100 seconds from one attempt to
  the next.
\<close>

definition serverError :: "unit apicall" where
  "serverError n = Rejected (Some ''API request failed: 500 Internal Server Error - boom'')"

definition tooManyRequests :: "unit apicall" where
  "tooManyRequests n = Rejected (Some ''API request failed: 429 Too Many Requests - slow down'')"


definition sameCallForEveryTier :: "unit apicall \<Rightarrow> string \<Rightarrow> int \<Rightarrow> unit apicall" where
  "sameCallForEveryTier c fm level = c"

definition spacedClock :: environment where
  "spacedClock = \<lparr> clock = (\<lambda>n k. 100000 * int n + int k), random = (\<lambda>n. 1 / 2) \<rparr>"


section \<open>Stream decoder\<close>

text \<open>
  The text the decoder works on is JavaScript text: a sequence of 16-bit code units. A
  chunk is what \<^verbatim>\<open>decoder.decode(value)\<close> returns for one read of the body. \<open>js\<close> writes
  such a text from a literal.
\<close>

type_synonym jschar = "16 word"

type_synonym jsstring = "jschar list"

definition js :: "string \<Rightarrow> jsstring" where
  "js s = map (\<lambda>c. of_nat (of_char c)) s"

subsection \<open>\<^verbatim>\<open>JSON.parse\<close>\<close>

text \<open>
  The value \<^verbatim>\<open>JSON.parse\<close> builds. An object keeps its members in the order they were
  written, and a later member with the same key hides an earlier one. A number keeps the
  text it was written with.
\<close>

datatype json =
    JNull
  | JBool bool
  | JNumber jsstring
  | JString jsstring
  | JArray "json list"
  | JObject "(jsstring \<times> json) list"

datatype token =
    TLBrace | TRBrace | TLBracket | TRBracket | TColon | TComma
  | TString jsstring | TNumber jsstring | TTrue | TFalse | TNull

text \<open>
  The scanner reads one code unit at a time. Its modes: between tokens; inside a string
  (with the code units read so far, last first); after a backslash; inside \<^verbatim>\<open>\uXXXX\<close>;
  inside a number, at one of the places of the number grammar; inside one of the words
  \<^verbatim>\<open>true\<close>, \<^verbatim>\<open>false\<close>, \<^verbatim>\<open>null\<close>, with the code units still expected.
\<close>

datatype numstate = NMinus | NZero | NInt | NDot | NFrac | NExp | NExpSign | NExpDigits

datatype lexmode =
    Idle
  | InStr jsstring
  | InEsc jsstring
  | InUni jsstring "nat list"
  | InNum numstate jsstring
  | InLit jsstring token

definition isJsonSpace :: "jschar \<Rightarrow> bool" where
  "isJsonSpace c = (c = 0x20 \<or> c = 0x09 \<or> c = 0x0A \<or> c = 0x0D)"

definition isDecimalDigit :: "jschar \<Rightarrow> bool" where
  "isDecimalDigit c = (0x30 \<le> c \<and> c \<le> 0x39)"

definition hexValue :: "jschar \<Rightarrow> nat option" where
  "hexValue c =
     (if 0x30 \<le> c \<and> c \<le> 0x39 then Some (unat c - 48)
      else if 0x61 \<le> c \<and> c \<le> 0x66 then Some (unat c - 87)
      else if 0x41 \<le> c \<and> c \<le> 0x46 then Some (unat c - 55)
      else None)"

definition idleStep :: "jschar \<Rightarrow> (token list \<times> lexmode) option" where
  "idleStep c =
     (if isJsonSpace c then Some ([], Idle)
      else if c = 0x7B then Some ([TLBrace], Idle)
      else if c = 0x7D then Some ([TRBrace], Idle)
      else if c = 0x5B then Some ([TLBracket], Idle)
      else if c = 0x5D then Some ([TRBracket], Idle)
      else if c = 0x3A then Some ([TColon], Idle)
      else if c = 0x2C then Some ([TComma], Idle)
      else if c = 0x22 then Some ([], InStr [])
      else if c = 0x2D then Some ([], InNum NMinus [c])
      else if c = 0x30 then Some ([], InNum NZero [c])
      else if isDecimalDigit c then Some ([], InNum NInt [c])
      else if c = 0x74 then Some ([], InLit (js ''rue'') TTrue)
      else if c = 0x66 then Some ([], InLit (js ''alse'') TFalse)
      else if c = 0x6E then Some ([], InLit (js ''ull'') TNull)
      else None)"

text \<open>
  Inside a number: \<open>Some (Some st)\<close> when the code unit continues the number, \<open>Some None\<close>
  when the number is complete before it, \<open>None\<close> when the text is not a number.
\<close>

definition numStep :: "numstate \<Rightarrow> jschar \<Rightarrow> numstate option option" where
  "numStep st c =
     (let isExp = (c = 0x65 \<or> c = 0x45)
      in case st of
           NMinus \<Rightarrow> if c = 0x30 then Some (Some NZero)
                     else if isDecimalDigit c then Some (Some NInt) else None
         | NZero \<Rightarrow> if c = 0x2E then Some (Some NDot)
                    else if isExp then Some (Some NExp) else Some None
         | NInt \<Rightarrow> if isDecimalDigit c then Some (Some NInt)
                   else if c = 0x2E then Some (Some NDot)
                   else if isExp then Some (Some NExp) else Some None
         | NDot \<Rightarrow> if isDecimalDigit c then Some (Some NFrac) else None
         | NFrac \<Rightarrow> if isDecimalDigit c then Some (Some NFrac)
                    else if isExp then Some (Some NExp) else Some None
         | NExp \<Rightarrow> if c = 0x2B \<or> c = 0x2D then Some (Some NExpSign)
                   else if isDecimalDigit c then Some (Some NExpDigits) else None
         | NExpSign \<Rightarrow> if isDecimalDigit c then Some (Some NExpDigits) else None
         | NExpDigits \<Rightarrow> if isDecimalDigit c then Some (Some NExpDigits) else Some None)"

definition numComplete :: "numstate \<Rightarrow> bool" where
  "numComplete st = (st = NZero \<or> st = NInt \<or> st = NFrac \<or> st = NExpDigits)"

definition escapeStep :: "jsstring \<Rightarrow> jschar \<Rightarrow> (token list \<times> lexmode) option" where
  "escapeStep acc c =
     (if c = 0x22 \<or> c = 0x5C \<or> c = 0x2F then Some ([], InStr (c # acc))
      else if c = 0x62 then Some ([], InStr (0x08 # acc))
      else if c = 0x66 then Some ([], InStr (0x0C # acc))
      else if c = 0x6E then Some ([], InStr (0x0A # acc))
      else if c = 0x72 then Some ([], InStr (0x0D # acc))
      else if c = 0x74 then Some ([], InStr (0x09 # acc))
      else if c = 0x75 then Some ([], InUni acc [])
      else None)"

definition lexStep :: "lexmode \<Rightarrow> jschar \<Rightarrow> (token list \<times> lexmode) option" where
  "lexStep m c =
     (case m of
        Idle \<Rightarrow> idleStep c
      | InStr acc \<Rightarrow>
          if c = 0x22 then Some ([TString (rev acc)], Idle)
          else if c = 0x5C then Some ([], InEsc acc)
          else if c < 0x20 then None
          else Some ([], InStr (c # acc))
      | InEsc acc \<Rightarrow> escapeStep acc c
      | InUni acc ds \<Rightarrow>
          (case hexValue c of
             None \<Rightarrow> None
           | Some d \<Rightarrow>
               if length ds = 3
               then Some ([], InStr (of_nat (foldl (\<lambda>v h. 16 * v + h) 0 (ds @ [d])) # acc))
               else Some ([], InUni acc (ds @ [d])))
      | InNum st acc \<Rightarrow>
          (case numStep st c of
             None \<Rightarrow> None
           | Some (Some st') \<Rightarrow> Some ([], InNum st' (c # acc))
           | Some None \<Rightarrow>
               (case idleStep c of
                  None \<Rightarrow> None
                | Some (ts, m') \<Rightarrow> Some (TNumber (rev acc) # ts, m')))
      | InLit expected tok \<Rightarrow>
          (case expected of
             [] \<Rightarrow> None
           | e # es \<Rightarrow>
               if c \<noteq> e then None
               else if es = [] then Some ([tok], Idle)
               else Some ([], InLit es tok)))"

definition lexEnd :: "lexmode \<Rightarrow> token list option" where
  "lexEnd m =
     (case m of
        Idle \<Rightarrow> Some []
      | InNum st acc \<Rightarrow> if numComplete st then Some [TNumber (rev acc)] else None
      | _ \<Rightarrow> None)"

fun lexAll :: "lexmode \<Rightarrow> jsstring \<Rightarrow> token list option" where
  "lexAll m [] = lexEnd m"
| "lexAll m (c # cs) =
     (case lexStep m c of
        None \<Rightarrow> None
      | Some (ts, m') \<Rightarrow> map_option (\<lambda>rest. ts @ rest) (lexAll m' cs))"

text \<open>
  The parser reads one token at a time and keeps the arrays and objects it is inside of
  on a stack: an array with its elements so far, an object with its members so far and
  the key whose value is being read, all last first.
\<close>

datatype frame =
    InArray "json list"
  | InObject "(jsstring \<times> json) list" jsstring

datatype pstate =
    PValue
  | PValueOrClose
  | PKeyOrClose
  | PKey "(jsstring \<times> json) list"
  | PColon "(jsstring \<times> json) list" jsstring
  | PAfter json

definition valueStart :: "frame list \<Rightarrow> token \<Rightarrow> (pstate \<times> frame list) option" where
  "valueStart stack t =
     (case t of
        TLBrace \<Rightarrow> Some (PKeyOrClose, stack)
      | TLBracket \<Rightarrow> Some (PValueOrClose, InArray [] # stack)
      | TString s \<Rightarrow> Some (PAfter (JString s), stack)
      | TNumber n \<Rightarrow> Some (PAfter (JNumber n), stack)
      | TTrue \<Rightarrow> Some (PAfter (JBool True), stack)
      | TFalse \<Rightarrow> Some (PAfter (JBool False), stack)
      | TNull \<Rightarrow> Some (PAfter JNull, stack)
      | _ \<Rightarrow> None)"

definition parseStep :: "pstate \<times> frame list \<Rightarrow> token \<Rightarrow> (pstate \<times> frame list) option" where
  "parseStep ps t =
     (case ps of
        (PValue, stack) \<Rightarrow> valueStart stack t
      | (PValueOrClose, stack) \<Rightarrow>
          (case (t, stack) of
             (TRBracket, InArray [] # rest) \<Rightarrow> Some (PAfter (JArray []), rest)
           | _ \<Rightarrow> valueStart stack t)
      | (PKeyOrClose, stack) \<Rightarrow>
          (case t of
             TRBrace \<Rightarrow> Some (PAfter (JObject []), stack)
           | TString k \<Rightarrow> Some (PColon [] k, stack)
           | _ \<Rightarrow> None)
      | (PKey members, stack) \<Rightarrow>
          (case t of
             TString k \<Rightarrow> Some (PColon members k, stack)
           | _ \<Rightarrow> None)
      | (PColon members k, stack) \<Rightarrow>
          (case t of
             TColon \<Rightarrow> Some (PValue, InObject members k # stack)
           | _ \<Rightarrow> None)
      | (PAfter v, stack) \<Rightarrow>
          (case (stack, t) of
             (InArray elements # rest, TComma) \<Rightarrow> Some (PValue, InArray (v # elements) # rest)
           | (InArray elements # rest, TRBracket) \<Rightarrow>
               Some (PAfter (JArray (rev (v # elements))), rest)
           | (InObject members k # rest, TComma) \<Rightarrow> Some (PKey ((k, v) # members), rest)
           | (InObject members k # rest, TRBrace) \<Rightarrow>
               Some (PAfter (JObject (rev ((k, v) # members))), rest)
           | _ \<Rightarrow> None))"

fun parseTokens :: "pstate \<times> frame list \<Rightarrow> token list \<Rightarrow> json option" where
  "parseTokens ps [] = (case ps of (PAfter v, []) \<Rightarrow> Some v | _ \<Rightarrow> None)"
| "parseTokens ps (t # ts) =
     (case parseStep ps t of None \<Rightarrow> None | Some ps' \<Rightarrow> parseTokens ps' ts)"

text \<open>\<^verbatim>\<open>JSON.parse(text)\<close>: \<open>None\<close> is the \<^verbatim>\<open>SyntaxError\<close> it throws.\<close>

definition JSON_parse :: "jsstring \<Rightarrow> json option" where
  "JSON_parse text =
     (case lexAll Idle text of
        None \<Rightarrow> None
      | Some ts \<Rightarrow> parseTokens (PValue, []) ts)"

subsection \<open>Reading the delta out of a frame\<close>

text \<open>
  Property access on a parsed value that is neither \<^verbatim>\<open>null\<close> nor \<^verbatim>\<open>undefined\<close>; \<open>None\<close>
  is \<^verbatim>\<open>undefined\<close>. The keys the decoder asks for are \<^verbatim>\<open>choices\<close>, \<^verbatim>\<open>0\<close>, \<^verbatim>\<open>delta\<close> and
  \<^verbatim>\<open>content\<close>: an object answers with its last member of that name, an array and a text
  answer only to \<^verbatim>\<open>0\<close>, with their first element, and nothing else has such a property.
\<close>

fun lastMember :: "jsstring \<Rightarrow> (jsstring \<times> json) list \<Rightarrow> json option" where
  "lastMember key [] = None"
| "lastMember key ((k, v) # members) =
     (case lastMember key members of
        Some v' \<Rightarrow> Some v'
      | None \<Rightarrow> if k = key then Some v else None)"

definition getProperty :: "json \<Rightarrow> jsstring \<Rightarrow> json option" where
  "getProperty v key =
     (case v of
        JObject members \<Rightarrow> lastMember key members
      | JArray elements \<Rightarrow>
          (if key = js ''0'' then (case elements of [] \<Rightarrow> None | e # _ \<Rightarrow> Some e) else None)
      | JString s \<Rightarrow>
          (if key = js ''0'' then (case s of [] \<Rightarrow> None | c # _ \<Rightarrow> Some (JString [c])) else None)
      | _ \<Rightarrow> None)"

text \<open>\<^verbatim>\<open>v?.key\<close>: \<^verbatim>\<open>undefined\<close> when \<open>v\<close> is \<^verbatim>\<open>undefined\<close> or \<^verbatim>\<open>null\<close>.\<close>

definition optionalChain :: "json option \<Rightarrow> jsstring \<Rightarrow> json option" where
  "optionalChain v key =
     (case v of None \<Rightarrow> None | Some JNull \<Rightarrow> None | Some x \<Rightarrow> getProperty x key)"

text \<open>
  \<^verbatim>\<open>json.choices[0]?.delta?.content\<close>. The outer \<open>None\<close> is the \<^verbatim>\<open>TypeError\<close> of reading a
  property of \<^verbatim>\<open>null\<close> or \<^verbatim>\<open>undefined\<close>, which the two plain accesses can throw.
\<close>

definition deltaContent :: "json \<Rightarrow> json option option" where
  "deltaContent json =
     (if json = JNull then None
      else case getProperty json (js ''choices'') of
             None \<Rightarrow> None
           | Some JNull \<Rightarrow> None
           | Some choices \<Rightarrow>
               Some (optionalChain (optionalChain (getProperty choices (js ''0'')) (js ''delta''))
                       (js ''content'')))"

text \<open>
  The Number a number text of JSON denotes: the double nearest to the rational it
  writes. The text has passed the scanner, so it is an optional minus sign, digits, an
  optional fraction and an optional exponent.
\<close>

definition digitsValue :: "jsstring \<Rightarrow> int" where
  "digitsValue ds = foldl (\<lambda>acc c. 10 * acc + (uint c - 48)) 0 ds"

definition literalValue :: "jsstring \<Rightarrow> rat" where
  "literalValue lit =
     (let negative = startsWith lit [0x2D];
          unsigned = (if negative then drop 1 lit else lit);
          mantissa = takeWhile (\<lambda>c. c \<noteq> 0x65 \<and> c \<noteq> 0x45) unsigned;
          exponent = drop 1 (dropWhile (\<lambda>c. c \<noteq> 0x65 \<and> c \<noteq> 0x45) unsigned);
          whole = takeWhile (\<lambda>c. c \<noteq> 0x2E) mantissa;
          fraction = drop 1 (dropWhile (\<lambda>c. c \<noteq> 0x2E) mantissa);
          e = (if startsWith exponent [0x2D] then - digitsValue (drop 1 exponent)
               else if startsWith exponent [0x2B] then digitsValue (drop 1 exponent)
               else digitsValue exponent);
          v = of_int (digitsValue (whole @ fraction)) * pow10 (e - int (length fraction))
      in if negative then - v else v)"

definition jsonNumber :: "jsstring \<Rightarrow> jsnumber" where
  "jsonNumber lit = toDouble (literalValue lit)"

text \<open>The test \<^verbatim>\<open>content || ''\<close> and \<^verbatim>\<open>if (... && contentDelta)\<close> make.\<close>

definition truthy :: "json option \<Rightarrow> bool" where
  "truthy v =
     (case v of
        None \<Rightarrow> False
      | Some JNull \<Rightarrow> False
      | Some (JBool b) \<Rightarrow> b
      | Some (JNumber lit) \<Rightarrow> jsonNumber lit \<noteq> Finite 0
      | Some (JString s) \<Rightarrow> s \<noteq> []
      | Some _ \<Rightarrow> True)"

text \<open>
  The text \<^verbatim>\<open>streamedContent += contentDelta\<close> appends. An array is joined with commas,
  \<^verbatim>\<open>null\<close> elements printing as nothing. An object prints as \<^verbatim>\<open>[object Object]\<close>, unless it
  has a member named \<^verbatim>\<open>toString\<close>, which hides the method and makes the conversion throw:
  \<open>None\<close> is that \<^verbatim>\<open>TypeError\<close>.
\<close>

fun toText :: "json \<Rightarrow> jsstring option"
  and joinText :: "json list \<Rightarrow> jsstring option" where
  "toText JNull = Some (js ''null'')"
| "toText (JBool b) = Some (if b then js ''true'' else js ''false'')"
| "toText (JNumber lit) = Some (js (numberToString (jsonNumber lit)))"
| "toText (JString s) = Some s"
| "toText (JArray elements) = joinText elements"
| "toText (JObject members) =
     (if lastMember (js ''toString'') members \<noteq> None then None
      else Some (js ''[object Object]''))"
| "joinText [] = Some []"
| "joinText (e # es) =
     (case (if e = JNull then Some [] else toText e) of
        None \<Rightarrow> None
      | Some s \<Rightarrow>
          if es = [] then Some s
          else (case joinText es of None \<Rightarrow> None | Some rest \<Rightarrow> Some (s @ js '','' @ rest)))"

text \<open>
  \<^verbatim>\<open>content || ''\<close> followed by the conversion to text: a value that is not truthy
  appends nothing.
\<close>

definition contentDeltaText :: "json option \<Rightarrow> jsstring option" where
  "contentDeltaText content =
     (case content of
        None \<Rightarrow> Some []
      | Some v \<Rightarrow> if truthy content then toText v else Some [])"

subsection \<open>The decoding loop\<close>

text \<open>
  What the loop of \<^verbatim>\<open>streamingApiCall\<close> changes: the transcript, the page (each value
  handed to \<^verbatim>\<open>convertMarkdownToHTML\<close> for the target element, in order), and the console
  (the payload of each frame it warns about). The transcript is the variable
  \<^verbatim>\<open>streamedContent\<close> of \<^verbatim>\<open>streamResponse\<close> (line 1155), which the call closes over: it is
  empty when \<^verbatim>\<open>streamResponse\<close> starts, and a call that is made again after a failure goes
  on from the text the failed call has left in it.
\<close>

record decoder =
  streamedContent :: jsstring
  rendered :: "jsstring list"
  warnings :: "jsstring list"

definition newDecoder :: decoder where
  "newDecoder = \<lparr> streamedContent = [], rendered = [], warnings = [] \<rparr>"

text \<open>\<^verbatim>\<open>chunk.split('\n')\<close>: the pieces between line feeds; never the empty list.\<close>

fun splitLines :: "jsstring \<Rightarrow> jsstring list" where
  "splitLines [] = [[]]"
| "splitLines (c # cs) =
     (if c = 0x0A then [] # splitLines cs
      else case splitLines cs of
             [] \<Rightarrow> [[c]]
           | line # rest \<Rightarrow> (c # line) # rest)"

text \<open>White space and line terminators, as \<^verbatim>\<open>String.prototype.trim\<close> has them.\<close>

definition isTrimmable :: "jschar \<Rightarrow> bool" where
  "isTrimmable c =
     (c \<in> set [0x09, 0x0A, 0x0B, 0x0C, 0x0D, 0x20, 0xA0, 0x1680, 0x2028, 0x2029, 0x202F,
                0x205F, 0x3000, 0xFEFF]
      \<or> (0x2000 \<le> c \<and> c \<le> 0x200A))"

definition trim :: "jsstring \<Rightarrow> jsstring" where
  "trim s = rev (dropWhile isTrimmable (rev (dropWhile isTrimmable s)))"

text \<open>\<^verbatim>\<open>line.replace(/^data: /, '')\<close>.\<close>

definition stripDataPrefix :: "jsstring \<Rightarrow> jsstring" where
  "stripDataPrefix line =
     (if startsWith line (js ''data: '') then drop (length (js ''data: '')) line else line)"

text \<open>
  The body of \<^verbatim>\<open>for (const line of lines)\<close>, lines 1232 to 1270. \<open>targetElement\<close> says
  whether there is a target element.
\<close>

definition processLine :: "bool \<Rightarrow> decoder \<Rightarrow> jsstring \<Rightarrow> decoder" where
  "processLine targetElement d line =
     (if js_includes line (js ''[DONE]'') then d
      else
        (let jsonString = trim (stripDataPrefix line)
         in if jsonString = [] then d
            else
              (case JSON_parse jsonString of
                 None \<Rightarrow> d\<lparr> warnings := warnings d @ [jsonString] \<rparr>
               | Some json \<Rightarrow>
                   (case deltaContent json of
                      None \<Rightarrow> d\<lparr> warnings := warnings d @ [jsonString] \<rparr>
                    | Some content \<Rightarrow>
                        (case contentDeltaText content of
                           None \<Rightarrow> d\<lparr> warnings := warnings d @ [jsonString] \<rparr>
                         | Some contentDelta \<Rightarrow>
                             (let transcript = streamedContent d @ contentDelta
                              in d\<lparr> streamedContent := transcript,
                                    rendered := (if targetElement \<and> truthy content
                                                 then rendered d @ [transcript]
                                                 else rendered d) \<rparr>))))))"

definition processLines :: "bool \<Rightarrow> decoder \<Rightarrow> jsstring list \<Rightarrow> decoder" where
  "processLines targetElement d lines = foldl (processLine targetElement) d lines"

text \<open>\<^verbatim>\<open>chunk.split('\n').filter(line => line.trim() !== '')\<close>.\<close>

definition chunkLines :: "jsstring \<Rightarrow> jsstring list" where
  "chunkLines chunk = filter (\<lambda>line. trim line \<noteq> []) (splitLines chunk)"

definition processChunk :: "bool \<Rightarrow> decoder \<Rightarrow> jsstring \<Rightarrow> decoder" where
  "processChunk targetElement d chunk = processLines targetElement d (chunkLines chunk)"

text \<open>The \<^verbatim>\<open>while (true)\<close> loop over the reads of the body, until \<^verbatim>\<open>done\<close>.\<close>

definition decodeChunks :: "bool \<Rightarrow> decoder \<Rightarrow> jsstring list \<Rightarrow> decoder" where
  "decodeChunks targetElement d chunks = foldl (processChunk targetElement) d chunks"






text \<open>
  Two frames and the end marker, as the server sends them, and the same stream followed
  by one more frame.
\<close>

definition helloStream :: jsstring where
  \<open>helloStream =
     js ''data: {"choices":[{"delta":{"content":"Hel"}}]}'' @ [0x0A, 0x0A] @
     js ''data: {"choices":[{"delta":{"content":"lo"}}]}'' @ [0x0A, 0x0A] @
     js ''data: [DONE]'' @ [0x0A, 0x0A]\<close>





section \<open>Properties of the usage monitor\<close>

lemma monitor_reachable_inv:
  "monitor_reachable m \<Longrightarrow> maxLogSize m = 100 \<and> length (usageLog m) \<le> 100"
proof (induction rule: monitor_reachable.induct)
  case initial
  show ?case by (simp add: apiUsageMonitor_def)
next
  case (logged m now ep mdl ok code)
  then show ?case by (auto simp: logApiCall_def Let_def)
qed

lemma logCalls_below_capacity:
  "length cs + length (usageLog m) \<le> maxLogSize m \<Longrightarrow>
   logCalls cs m = m\<lparr> usageLog :=
      rev (map (\<lambda>(now, ok). \<lparr> timestamp = now, endpoint = ''chat'', model = ''gpt-4o'',
                               success = ok, errorCode = None \<rparr>) cs) @ usageLog m \<rparr>"
proof (induction cs arbitrary: m)
  case Nil
  then show ?case by simp
next
  case (Cons c cs)
  obtain now ok where c: "c = (now, ok)" by (cases c)
  have step: "fst (logApiCall now ''chat'' ''gpt-4o'' ok None m) =
      m\<lparr> usageLog := \<lparr> timestamp = now, endpoint = ''chat'', model = ''gpt-4o'',
                               success = ok, errorCode = None \<rparr> # usageLog m \<rparr>"
    using Cons.prems by (simp add: logApiCall_def Let_def)
  show ?case using Cons.prems Cons.IH [of "fst (logApiCall now ''chat'' ''gpt-4o'' ok None m)"]
    by (simp add: c step)
qed

lemma logCalls_reachable:
  "monitor_reachable m \<Longrightarrow> monitor_reachable (logCalls cs m)"
proof (induction cs arbitrary: m)
  case Nil
  then show ?case by simp
next
  case (Cons c cs)
  obtain now ok where c: "c = (now, ok)" by (cases c)
  from Cons.prems have "monitor_reachable (fst (logApiCall now ''chat'' ''gpt-4o'' ok None m))"
    by (rule monitor_reachable.logged)
  from Cons.IH [OF this] show ?case by (simp add: c)
qed

text \<open>
  C7. On every monitor that arises from the initial one by recording calls, recording one
  more call leaves the log no longer than the capacity, which is 100; the new entry is at
  the front; and when the log was full, the entry dropped is the last one, the oldest.
\<close>

theorem C7_usage_log_bounded:
  assumes "monitor_reachable m"
  shows "length (usageLog (fst (logApiCall now ep mdl ok code m)))
           \<le> maxLogSize (fst (logApiCall now ep mdl ok code m))
       \<and> maxLogSize (fst (logApiCall now ep mdl ok code m)) = 100
       \<and> usageLog (fst (logApiCall now ep mdl ok code m)) =
           (let entry = \<lparr> timestamp = now, endpoint = ep, model = mdl, success = ok, errorCode = code \<rparr>
            in if length (usageLog m) < 100 then entry # usageLog m
               else entry # butlast (usageLog m))"
proof -
  from assms have inv: "maxLogSize m = 100" "length (usageLog m) \<le> 100"
    using monitor_reachable_inv by blast+
  show ?thesis
  proof (cases "length (usageLog m) < 100")
    case True
    with inv show ?thesis by (simp add: logApiCall_def Let_def)
  next
    case False
    with inv have "length (usageLog m) = 100" by simp
    then have "usageLog m \<noteq> []" by auto
    with inv False show ?thesis by (simp add: logApiCall_def Let_def)
  qed
qed

theorem C7_witness:
  "monitor_reachable apiUsageMonitor \<and>
   usageLog (fst (logApiCall 5 ''chat'' ''gpt-4o'' True None apiUsageMonitor)) =
     [\<lparr> timestamp = 5, endpoint = ''chat'', model = ''gpt-4o'', success = True, errorCode = None \<rparr>] \<and>
   monitor_reachable fullMonitor \<and>
   length (usageLog fullMonitor) = 100 \<and>
   map timestamp (usageLog fullMonitor) = map (\<lambda>i. 1000 * int i) (rev [0..<100]) \<and>
   usageLog (fst (logApiCall 100000 ''chat'' ''gpt-4o'' False None fullMonitor)) =
     \<lparr> timestamp = 100000, endpoint = ''chat'', model = ''gpt-4o'', success = False, errorCode = None \<rparr>
       # butlast (usageLog fullMonitor) \<and>
   length (usageLog (fst (logApiCall 100000 ''chat'' ''gpt-4o'' False None fullMonitor))) = 100 \<and>
   map timestamp (usageLog (fst (logApiCall 100000 ''chat'' ''gpt-4o'' False None fullMonitor)))
     = map (\<lambda>i. 1000 * int i) (rev [1..<101])"
proof -
  let ?entry = "\<lambda>(now, ok). \<lparr> timestamp = now, endpoint = ''chat'', model = ''gpt-4o'',
                               success = ok, errorCode = None \<rparr>"
  let ?new = "\<lparr> timestamp = 100000, endpoint = ''chat'', model = ''gpt-4o'', success = False,
                errorCode = None \<rparr>"
  have r: "monitor_reachable apiUsageMonitor" by (rule monitor_reachable.initial)
  have first: "usageLog (fst (logApiCall 5 ''chat'' ''gpt-4o'' True None apiUsageMonitor)) =
     [\<lparr> timestamp = 5, endpoint = ''chat'', model = ''gpt-4o'', success = True, errorCode = None \<rparr>]"
    using C7_usage_log_bounded [OF r, of 5 "''chat''" "''gpt-4o''" True None]
    by (simp add: apiUsageMonitor_def Let_def)
  have full: "monitor_reachable fullMonitor"
    unfolding fullMonitor_def by (rule logCalls_reachable [OF r])
  have "length hundredCalls + length (usageLog apiUsageMonitor) \<le> maxLogSize apiUsageMonitor"
    by (simp add: hundredCalls_def apiUsageMonitor_def)
  from logCalls_below_capacity [OF this]
  have log: "usageLog fullMonitor = rev (map ?entry hundredCalls)"
    by (simp add: fullMonitor_def apiUsageMonitor_def)
  have len: "length (usageLog fullMonitor) = 100"
    by (simp add: log hundredCalls_def)
  have stamps: "map timestamp (usageLog fullMonitor) = map (\<lambda>i. 1000 * int i) (rev [0..<100])"
    by (simp add: log hundredCalls_def rev_map comp_def)
  from C7_usage_log_bounded [OF full, of 100000 "''chat''" "''gpt-4o''" False None] len
  have after: "usageLog (fst (logApiCall 100000 ''chat'' ''gpt-4o'' False None fullMonitor)) =
      ?new # butlast (usageLog fullMonitor)"
    and bound: "length (usageLog (fst (logApiCall 100000 ''chat'' ''gpt-4o'' False None fullMonitor)))
      \<le> 100"
    by (simp_all add: Let_def)
  have len': "length (usageLog (fst (logApiCall 100000 ''chat'' ''gpt-4o'' False None fullMonitor))) = 100"
    by (simp add: after len)
  have "map timestamp (?new # butlast (rev (map ?entry hundredCalls)))
      = map (\<lambda>i. 1000 * int i) (rev [1..<101])"
    by code_simp
  then have stamps': "map timestamp (usageLog (fst (logApiCall 100000 ''chat'' ''gpt-4o'' False None fullMonitor)))
     = map (\<lambda>i. 1000 * int i) (rev [1..<101])"
    by (simp only: after log)
  from r first full len stamps after len' stamps' show ?thesis by blast
qed

lemma sum_timeDiffs: "ts \<noteq> [] \<Longrightarrow> sum_list (timeDiffs ts) = hd ts - last ts"
  by (induction ts rule: timeDiffs.induct) auto

lemma length_timeDiffs: "length (timeDiffs ts) = length ts - 1"
  by (induction ts rule: timeDiffs.induct) auto

lemma timeDiffs_nonneg: "sorted (rev ts) \<Longrightarrow> \<forall>d \<in> set (timeDiffs ts). 0 \<le> d"
  by (induction ts rule: timeDiffs.induct) (auto simp: sorted_append)

lemma abs_timeDiffs: "sorted (rev ts) \<Longrightarrow> map abs (timeDiffs ts) = timeDiffs ts"
  using timeDiffs_nonneg by (simp add: map_idI)

text \<open>
  C8, as the code has it. Among the 20 most recent entries: the failure warning is printed
  exactly when there are at least 5 of them and more than seven tenths failed; the cadence
  warning is printed exactly when there are at least 5 of them and the mean of the signed
  differences (each entry's time minus the time of the entry recorded before it), which is
  the time from the oldest to the newest of them divided by the number of gaps, is below
  500 ms. That mean is the mean absolute difference whenever the times do not increase
  from the front of the log to the back. The warnings are computed from the log as it is
  after the entry was stored: they change nothing in the monitor.
\<close>

theorem C8_alerts:
  "(HighFailureRate \<in> set (checkForSuspiciousActivity m)) =
     (5 \<le> length (take 20 (usageLog m)) \<and>
      7 * length (take 20 (usageLog m))
        < 10 * length (filter (\<lambda>call. \<not> success call) (take 20 (usageLog m))))
   \<and> (RapidCalls \<in> set (checkForSuspiciousActivity m)) =
     (5 \<le> length (take 20 (usageLog m)) \<and>
      (of_int (timestamp (hd (take 20 (usageLog m))) - timestamp (last (take 20 (usageLog m)))) :: rat)
         / of_nat (length (take 20 (usageLog m)) - 1) < 500)
   \<and> (newestFirst (take 20 (usageLog m)) \<longrightarrow>
        avgTimeBetweenCalls (take 20 (usageLog m)) = spec_meanAbsTimeDelta (take 20 (usageLog m)))
   \<and> snd (logApiCall now ep mdl ok code m)
        = checkForSuspiciousActivity (fst (logApiCall now ep mdl ok code m))"
proof -
  define r where "r = take 20 (usageLog m)"
  have hf: "highFailureRate r =
     (5 \<le> length r \<and> 7 * length r < 10 * length (filter (\<lambda>call. \<not> success call) r))"
  proof (cases "5 \<le> length r")
    case True
    then have "0 < length r" by linarith
    then have pos: "(0::rat) < of_nat (length r)" by (simp only: of_nat_0_less_iff)
    have "((7::rat) / 10 < of_nat (length (filter (\<lambda>call. \<not> success call) r)) / of_nat (length r))
        = ((7::rat) * of_nat (length r) < 10 * of_nat (length (filter (\<lambda>call. \<not> success call) r)))"
      using pos by (simp add: field_simps)
    also have "\<dots> = (7 * length r < 10 * length (filter (\<lambda>call. \<not> success call) r))"
      by (metis (no_types) of_nat_less_iff of_nat_mult of_nat_numeral)
    finally show ?thesis using True by (simp add: highFailureRate_def Let_def)
  next
    case False
    then show ?thesis by (simp add: highFailureRate_def Let_def)
  qed
  have avg: "5 \<le> length r \<Longrightarrow> avgTimeBetweenCalls r =
      of_int (timestamp (hd r) - timestamp (last r)) / of_nat (length r - 1)"
  proof -
    assume "5 \<le> length r"
    then have ne: "r \<noteq> []" by (cases r) simp_all
    then show ?thesis
      by (simp add: avgTimeBetweenCalls_def Let_def sum_timeDiffs length_timeDiffs hd_map last_map)
  qed
  have rc: "rapidCalls r =
     (5 \<le> length r \<and>
      (of_int (timestamp (hd r) - timestamp (last r)) :: rat) / of_nat (length r - 1) < 500)"
    using avg by (auto simp: rapidCalls_def)
  have ab: "newestFirst r \<longrightarrow> avgTimeBetweenCalls r = spec_meanAbsTimeDelta r"
    by (simp add: newestFirst_def avgTimeBetweenCalls_def spec_meanAbsTimeDelta_def Let_def
          abs_timeDiffs)
  have lg: "snd (logApiCall now ep mdl ok code m)
      = checkForSuspiciousActivity (fst (logApiCall now ep mdl ok code m))"
    by (simp add: logApiCall_def Let_def)
  show ?thesis
    using hf rc ab lg unfolding r_def by (simp add: checkForSuspiciousActivity_def Let_def)
qed

text \<open>
  The two boundary values together: ten calls half a second apart, seven of them failed.
  The failure ratio is exactly \<open>7/10\<close>, the mean gap exactly 500 ms, and nothing is printed.
\<close>

theorem C8_witness:
  "newestFirst (take 20 (usageLog (logCalls boundaryCalls apiUsageMonitor))) \<and>
   avgTimeBetweenCalls (take 20 (usageLog (logCalls boundaryCalls apiUsageMonitor))) = 500 \<and>
   spec_meanAbsTimeDelta (take 20 (usageLog (logCalls boundaryCalls apiUsageMonitor))) = 500 \<and>
   checkForSuspiciousActivity (logCalls boundaryCalls apiUsageMonitor) = []"
proof -
  have e: "logCalls boundaryCalls apiUsageMonitor = apiUsageMonitor\<lparr> usageLog :=
      rev (map (\<lambda>(now, ok). \<lparr> timestamp = now, endpoint = ''chat'', model = ''gpt-4o'',
                               success = ok, errorCode = None \<rparr>) boundaryCalls) \<rparr>"
    using logCalls_below_capacity [of boundaryCalls apiUsageMonitor]
    by (simp add: apiUsageMonitor_def boundaryCalls_def)
  show ?thesis
    using C8_alerts [of "logCalls boundaryCalls apiUsageMonitor"]
    unfolding e
    by (simp add: boundaryCalls_def apiUsageMonitor_def Let_def newestFirst_def
        avgTimeBetweenCalls_def spec_meanAbsTimeDelta_def checkForSuspiciousActivity_def
        highFailureRate_def rapidCalls_def)
qed

text \<open>
  Four calls a second apart, then the clock is set back and a fifth call is stamped
  43 seconds before the fourth. The signed differences sum to \<open>-40000\<close>, so the cadence
  warning is printed, while the mean absolute difference is 11500 ms.
\<close>

theorem C8_counterexample:
  "snd (logApiCall 60000 ''chat'' ''gpt-4o'' True None (logCalls clockSetBackCalls apiUsageMonitor))
     = [RapidCalls] \<and>
   \<not> spec_meanAbsTimeDelta (take 20 (usageLog (fst (logApiCall 60000 ''chat'' ''gpt-4o'' True None
          (logCalls clockSetBackCalls apiUsageMonitor))))) < 500"
proof -
  have e: "logCalls clockSetBackCalls apiUsageMonitor = apiUsageMonitor\<lparr> usageLog :=
      rev (map (\<lambda>(now, ok). \<lparr> timestamp = now, endpoint = ''chat'', model = ''gpt-4o'',
                               success = ok, errorCode = None \<rparr>) clockSetBackCalls) \<rparr>"
    using logCalls_below_capacity [of clockSetBackCalls apiUsageMonitor]
    by (simp add: apiUsageMonitor_def clockSetBackCalls_def)
  show ?thesis
    unfolding e
    by (simp add: clockSetBackCalls_def logApiCall_def apiUsageMonitor_def Let_def
        avgTimeBetweenCalls_def spec_meanAbsTimeDelta_def checkForSuspiciousActivity_def
        highFailureRate_def rapidCalls_def)
qed

text \<open>
  C10, as the code has it. \<^verbatim>\<open>getUsageStats\<close> leaves the monitor as it was; the total is
  the length of the log and is the sum of the two counts; the success rate is present
  exactly when the log is not empty.
\<close>

theorem C10_getUsageStats:
  "snd (getUsageStats m) = m \<and>
   total (fst (getUsageStats m)) = length (usageLog m) \<and>
   successes (fst (getUsageStats m)) = length (filter success (usageLog m)) \<and>
   total (fst (getUsageStats m))
     = successes (fst (getUsageStats m)) + failure (fst (getUsageStats m)) \<and>
   (successRate (fst (getUsageStats m)) = None) = (usageLog m = [])"
proof -
  have "length (filter success (usageLog m)) \<le> length (usageLog m)" by simp
  then show ?thesis by (simp add: getUsageStats_def Let_def)
qed

text \<open>On the empty log the result has three fields: there is no success rate.\<close>

theorem C10_counterexample:
  "fst (getUsageStats apiUsageMonitor)
     = \<lparr> total = 0, successes = 0, failure = 0, successRate = None \<rparr>"
  by (simp add: getUsageStats_def apiUsageMonitor_def)

section \<open>Properties of the request queue\<close>

lemma cleanup_retained:
  "t \<in> set (requests (cleanup cfg now q)) \<Longrightarrow> now - t \<le> rateLimitResetTime cfg"
  by (auto simp: cleanup_def Let_def)

lemma getWaitTime_queue:
  "snd (getWaitTime cfg now1 now q) =
     (if fst (canMakeRequest cfg now1 q) then cleanup cfg now1 q
      else cleanup cfg now (cleanup cfg now1 q))"
  by (simp add: getWaitTime_def canMakeRequest_def Let_def split: list.splits)

text \<open>
  C3, as the code has it. \<^verbatim>\<open>canMakeRequest\<close> purges, and answers true exactly when the
  number of timestamps retained is strictly below \<^verbatim>\<open>rateLimitPerMinute\<close>.
\<close>

theorem C3_canMakeRequest_strict:
  "snd (canMakeRequest cfg now q) = cleanup cfg now q \<and>
   fst (canMakeRequest cfg now q)
     = (length (requests (cleanup cfg now q)) < rateLimitPerMinute cfg)"
  by (simp add: canMakeRequest_def Let_def)

text \<open>With 20 timestamps retained, the count equals the limit and the call is refused.\<close>

theorem C3_counterexample:
  "length (requests (snd (canMakeRequest API_CONFIG 1000 \<lparr> requests = replicate 20 1000 \<rparr>)))
     \<le> rateLimitPerMinute API_CONFIG \<and>
   \<not> fst (canMakeRequest API_CONFIG 1000 \<lparr> requests = replicate 20 1000 \<rparr>)"
  by (simp add: canMakeRequest_def cleanup_def API_CONFIG_def Let_def)

text \<open>
  C6, as the code has it. After the purge of each of the three operations, every
  timestamp retained is at most \<^verbatim>\<open>rateLimitResetTime\<close> old, measured at the clock reading
  of that purge. \<^verbatim>\<open>getWaitTime\<close> purges a second time, at its own reading, only when
  \<^verbatim>\<open>canMakeRequest\<close> refused.
\<close>

theorem C6_window_retained:
  "(\<forall>t \<in> set (requests (cleanup cfg now q)). now - t \<le> rateLimitResetTime cfg) \<and>
   (\<forall>t \<in> set (requests (addRequest cfg now q)). now - t \<le> rateLimitResetTime cfg) \<and>
   (\<forall>t \<in> set (requests (snd (canMakeRequest cfg now q))). now - t \<le> rateLimitResetTime cfg) \<and>
   (\<forall>t \<in> set (requests (snd (getWaitTime cfg now1 now q))).
       (if fst (canMakeRequest cfg now1 q) then now1 else now) - t \<le> rateLimitResetTime cfg)"
proof -
  have a: "\<forall>t \<in> set (requests (cleanup cfg now q)). now - t \<le> rateLimitResetTime cfg"
    using cleanup_retained by blast
  have b: "\<forall>t \<in> set (requests (addRequest cfg now q)). now - t \<le> rateLimitResetTime cfg"
    unfolding addRequest_def using cleanup_retained by blast
  have c: "\<forall>t \<in> set (requests (snd (canMakeRequest cfg now q))). now - t \<le> rateLimitResetTime cfg"
    using cleanup_retained by (simp add: canMakeRequest_def Let_def)
  have d: "\<forall>t \<in> set (requests (snd (getWaitTime cfg now1 now q))).
       (if fst (canMakeRequest cfg now1 q) then now1 else now) - t \<le> rateLimitResetTime cfg"
    using cleanup_retained by (simp add: getWaitTime_queue)
  from a b c d show ?thesis by blast
qed

theorem C6_witness:
  "requests (addRequest API_CONFIG 70000 \<lparr> requests = [0, 10000, 65000] \<rparr>)
     = [10000, 65000, 70000] \<and>
   (70000::int) - 10000 \<le> rateLimitResetTime API_CONFIG"
  using C6_window_retained [of API_CONFIG 70000 "\<lparr> requests = [0, 10000, 65000] \<rparr>"]
  by (simp add: addRequest_def cleanup_def API_CONFIG_def)

text \<open>A timestamp exactly 60000 ms old is retained.\<close>

theorem C6_counterexample:
  "requests (cleanup API_CONFIG 60000 \<lparr> requests = [0] \<rparr>) = [0] \<and>
   \<not> ((60000::int) - 0 < rateLimitResetTime API_CONFIG)"
  by (simp add: cleanup_def API_CONFIG_def)

section \<open>Properties of the fallback cascade\<close>

lemma attemptLevels_append [simp]: "attemptLevels (xs @ ys) = attemptLevels xs @ attemptLevels ys"
  by (induction xs rule: attemptLevels.induct) auto

lemma fallbacksCreated_append [simp]:
  "fallbacksCreated (xs @ ys) = fallbacksCreated xs @ fallbacksCreated ys"
  by (induction xs rule: fallbacksCreated.induct) auto

lemma failures_append [simp]: "failures (xs @ ys) = failures xs @ failures ys"
  by (induction xs rule: failures.induct) auto

lemma admit_events [simp]:
  "attemptLevels (snd (admit cfg env n q)) = []"
  "fallbacksCreated (snd (admit cfg env n q)) = []"
  "failures (snd (admit cfg env n q)) = []"
  by (auto simp: admit_def split: prod.splits bool.splits)

lemma notification_events [simp]:
  "attemptLevels (showFallbackNotification t l m) = []"
  "fallbacksCreated (showFallbackNotification t l m) = []"
  "failures (showFallbackNotification t l m) = []"
  by (auto simp: showFallbackNotification_def)

lemma cascadeLoop_passes:
  "cascadeLoop cfg env ep mdl cfc tgt s =
     (case passes k cfg env ep mdl cfc tgt s of
        Continue s' \<Rightarrow> cascadeLoop cfg env ep mdl cfc tgt s'
      | Return result s' \<Rightarrow> Some (Inr result, s')
      | Throw m s' \<Rightarrow> Some (Inl m, s'))"
proof (induction k)
  case 0
  show ?case by simp
next
  case (Suc k)
  show ?case
  proof (cases "passes k cfg env ep mdl cfc tgt s")
    case (Continue s')
    then show ?thesis using Suc
      by (simp add: cascadeLoop.simps [of cfg env ep mdl cfc tgt s'])
  next
    case (Return r s')
    then show ?thesis using Suc by simp
  next
    case (Throw m s')
    then show ?thesis using Suc by simp
  qed
qed


lemma pass_rate_limited:
  assumes rej: "currentApiCall s (attempts s) = Rejected msg" and rl: "rateLimited msg"
  shows "\<exists>s'. iteration cfg env ep mdl cfc tgt s =
           (if maxRetries cfg \<le> Suc (retryCount s) \<and>
               int (length (fallbackModels cfg)) - 1 \<le> fallbackLevel s
            then Throw (Error (''Failed after '' @ decimal (maxRetries cfg) @
                        '' retry attempts on all models: '' @ messageText msg)) s'
            else Continue s')
         \<and> retryCount s' = Suc (retryCount s) \<and> fallbackLevel s' = fallbackLevel s
         \<and> currentApiCall s' = currentApiCall s \<and> attempts s' = Suc (attempts s)
         \<and> trace s' = trace s @ snd (admit cfg env (attempts s) (queue s)) @
              [Attempt (fallbackLevel s) (retryCount s), Failed msg,
               Waited (5000 + getRetryDelay cfg (random env (attempts s)) (retryCount s))]"
  using rej rl by (simp add: iteration_def onError_def Let_def split_beta)

lemma pass_retry:
  assumes rej: "currentApiCall s (attempts s) = Rejected msg" and nrl: "\<not> rateLimited msg"
    and lt: "retryCount s < maxRetries cfg"
  shows "\<exists>s'. iteration cfg env ep mdl cfc tgt s =
           (if maxRetries cfg \<le> Suc (retryCount s) \<and>
               int (length (fallbackModels cfg)) - 1 \<le> fallbackLevel s
            then Throw (Error (''Failed after '' @ decimal (maxRetries cfg) @
                        '' retry attempts on all models: '' @ messageText msg)) s'
            else Continue s')
         \<and> retryCount s' = Suc (retryCount s) \<and> fallbackLevel s' = fallbackLevel s
         \<and> currentApiCall s' = currentApiCall s \<and> attempts s' = Suc (attempts s)
         \<and> attemptLevels (trace s') = attemptLevels (trace s) @ [fallbackLevel s]
         \<and> fallbacksCreated (trace s') = fallbacksCreated (trace s)
         \<and> failures (trace s') = failures (trace s) @ [msg]"
  using rej nrl lt by (simp add: iteration_def onError_def Let_def split_beta)

lemma pass_fallback:
  assumes rej: "currentApiCall s (attempts s) = Rejected msg" and nrl: "\<not> rateLimited msg"
    and ge: "\<not> retryCount s < maxRetries cfg"
    and lv: "fallbackLevel s < int (length (fallbackModels cfg)) - 1"
  shows "\<exists>s'. iteration cfg env ep mdl cfc tgt s =
           (if maxRetries cfg = 0 \<and> int (length (fallbackModels cfg)) - 1 \<le> fallbackLevel s + 1
            then Throw (Error (''Failed after '' @ decimal (maxRetries cfg) @
                        '' retry attempts on all models: '' @ messageText msg)) s'
            else Continue s')
         \<and> retryCount s' = 0 \<and> fallbackLevel s' = fallbackLevel s + 1
         \<and> currentApiCall s' =
             cfc (fallbackModels cfg ! nat (fallbackLevel s + 1)) (fallbackLevel s + 1)
         \<and> attempts s' = Suc (attempts s)
         \<and> attemptLevels (trace s') = attemptLevels (trace s) @ [fallbackLevel s]
         \<and> fallbacksCreated (trace s') = fallbacksCreated (trace s) @
              [(fallbackModels cfg ! nat (fallbackLevel s + 1), fallbackLevel s + 1)]
         \<and> failures (trace s') = failures (trace s) @ [msg]"
  using rej nrl ge lv by (simp add: iteration_def onError_def Let_def split_beta)




lemma failsEveryTimeD:
  "failsEveryTime c \<Longrightarrow> \<exists>msg. c n = Rejected msg \<and> \<not> rateLimited msg"
  unfolding failsEveryTime_def by (erule allE [of _ n]) (auto split: outcome.splits)

lemma passes_add:
  "passes (j + k) cfg env ep mdl cfc tgt s =
     (case passes j cfg env ep mdl cfc tgt s of
        Continue s' \<Rightarrow> passes k cfg env ep mdl cfc tgt s'
      | Return r s' \<Rightarrow> Return r s'
      | Throw m s' \<Rightarrow> Throw m s')"
proof (induction k)
  case 0
  show ?case by (simp split: step.splits)
next
  case (Suc k)
  show ?case using Suc by (simp split: step.splits)
qed

lemma retries_within_tier:
  assumes fe: "failsEveryTime (currentApiCall s)"
    and le: "retryCount s + k \<le> maxRetries cfg"
    and room: "fallbackLevel s < int (length (fallbackModels cfg)) - 1 \<or> retryCount s + k < maxRetries cfg"
  shows "\<exists>s'. passes k cfg env ep mdl cfc tgt s = Continue s'
         \<and> retryCount s' = retryCount s + k \<and> fallbackLevel s' = fallbackLevel s
         \<and> currentApiCall s' = currentApiCall s \<and> attempts s' = attempts s + k
         \<and> attemptLevels (trace s') = attemptLevels (trace s) @ replicate k (fallbackLevel s)
         \<and> fallbacksCreated (trace s') = fallbacksCreated (trace s)
         \<and> length (failures (trace s')) = length (failures (trace s)) + k"
  using le room
proof (induction k)
  case 0
  show ?case by simp
next
  case (Suc k)
  from Suc.prems have "retryCount s + k \<le> maxRetries cfg"
    and "fallbackLevel s < int (length (fallbackModels cfg)) - 1 \<or> retryCount s + k < maxRetries cfg"
    by auto
  with Suc.IH obtain s1 where s1: "passes k cfg env ep mdl cfc tgt s = Continue s1"
      "retryCount s1 = retryCount s + k" "fallbackLevel s1 = fallbackLevel s"
      "currentApiCall s1 = currentApiCall s" "attempts s1 = attempts s + k"
      "attemptLevels (trace s1) = attemptLevels (trace s) @ replicate k (fallbackLevel s)"
      "fallbacksCreated (trace s1) = fallbacksCreated (trace s)"
      "length (failures (trace s1)) = length (failures (trace s)) + k"
    by blast
  from fe s1(4) obtain msg where msg: "currentApiCall s1 (attempts s1) = Rejected msg" "\<not> rateLimited msg"
    using failsEveryTimeD by metis
  have lt: "retryCount s1 < maxRetries cfg" using Suc.prems s1(2) by simp
  have cont: "\<not> (maxRetries cfg \<le> Suc (retryCount s1) \<and>
                int (length (fallbackModels cfg)) - 1 \<le> fallbackLevel s1)"
    using Suc.prems s1(2,3) by auto
  from pass_retry [OF msg lt, of env ep mdl cfc tgt] cont
  obtain s2 where s2: "iteration cfg env ep mdl cfc tgt s1 = Continue s2"
      "retryCount s2 = Suc (retryCount s1)" "fallbackLevel s2 = fallbackLevel s1"
      "currentApiCall s2 = currentApiCall s1" "attempts s2 = Suc (attempts s1)"
      "attemptLevels (trace s2) = attemptLevels (trace s1) @ [fallbackLevel s1]"
      "fallbacksCreated (trace s2) = fallbacksCreated (trace s1)"
      "failures (trace s2) = failures (trace s1) @ [msg]"
    by auto
  show ?case
    using s1 s2 by (simp add: replicate_append_same)
qed

lemma tier_exhausted_moves_on:
  assumes fe: "failsEveryTime (currentApiCall s)"
    and r0: "retryCount s = 0" and pos: "0 < maxRetries cfg"
    and lv: "fallbackLevel s < int (length (fallbackModels cfg)) - 1"
  shows "\<exists>s'. passes (Suc (maxRetries cfg)) cfg env ep mdl cfc tgt s = Continue s'
         \<and> retryCount s' = 0 \<and> fallbackLevel s' = fallbackLevel s + 1
         \<and> currentApiCall s' =
             cfc (fallbackModels cfg ! nat (fallbackLevel s + 1)) (fallbackLevel s + 1)
         \<and> attempts s' = attempts s + Suc (maxRetries cfg)
         \<and> attemptLevels (trace s') =
             attemptLevels (trace s) @ replicate (Suc (maxRetries cfg)) (fallbackLevel s)
         \<and> fallbacksCreated (trace s') = fallbacksCreated (trace s) @
              [(fallbackModels cfg ! nat (fallbackLevel s + 1), fallbackLevel s + 1)]
         \<and> length (failures (trace s')) = length (failures (trace s)) + Suc (maxRetries cfg)"
proof -
  from retries_within_tier [OF fe, of "maxRetries cfg" cfg env ep mdl cfc tgt] r0 lv
  obtain s1 where s1: "passes (maxRetries cfg) cfg env ep mdl cfc tgt s = Continue s1"
      "retryCount s1 = retryCount s + maxRetries cfg" "fallbackLevel s1 = fallbackLevel s"
      "currentApiCall s1 = currentApiCall s" "attempts s1 = attempts s + maxRetries cfg"
      "attemptLevels (trace s1) = attemptLevels (trace s) @ replicate (maxRetries cfg) (fallbackLevel s)"
      "fallbacksCreated (trace s1) = fallbacksCreated (trace s)"
      "length (failures (trace s1)) = length (failures (trace s)) + maxRetries cfg"
    by auto
  from fe s1(4) obtain msg where msg: "currentApiCall s1 (attempts s1) = Rejected msg" "\<not> rateLimited msg"
    using failsEveryTimeD by metis
  have ge: "\<not> retryCount s1 < maxRetries cfg" using s1(2) by simp
  have lv1: "fallbackLevel s1 < int (length (fallbackModels cfg)) - 1" using lv s1(3) by simp
  from pass_fallback [OF msg ge lv1, of env ep mdl cfc tgt] pos
  obtain s2 where s2: "iteration cfg env ep mdl cfc tgt s1 = Continue s2"
      "retryCount s2 = 0" "fallbackLevel s2 = fallbackLevel s1 + 1"
      "currentApiCall s2 = cfc (fallbackModels cfg ! nat (fallbackLevel s1 + 1)) (fallbackLevel s1 + 1)"
      "attempts s2 = Suc (attempts s1)"
      "attemptLevels (trace s2) = attemptLevels (trace s1) @ [fallbackLevel s1]"
      "fallbacksCreated (trace s2) = fallbacksCreated (trace s1) @
              [(fallbackModels cfg ! nat (fallbackLevel s1 + 1), fallbackLevel s1 + 1)]"
      "failures (trace s2) = failures (trace s1) @ [msg]"
    by auto
  show ?thesis using s1 s2 by (simp add: replicate_append_same)
qed

lemma last_tier_exhausted_throws:
  assumes fe: "failsEveryTime (currentApiCall s)"
    and r0: "retryCount s = 0" and pos: "0 < maxRetries cfg"
    and lv: "int (length (fallbackModels cfg)) - 1 \<le> fallbackLevel s"
  shows "\<exists>s' msg. passes (maxRetries cfg) cfg env ep mdl cfc tgt s =
             Throw (Error (''Failed after '' @ decimal (maxRetries cfg) @
                    '' retry attempts on all models: '' @ messageText msg)) s'
         \<and> failures (trace s') \<noteq> [] \<and> last (failures (trace s')) = msg
         \<and> retryCount s' = maxRetries cfg \<and> fallbackLevel s' = fallbackLevel s
         \<and> attempts s' = attempts s + maxRetries cfg
         \<and> attemptLevels (trace s') =
             attemptLevels (trace s) @ replicate (maxRetries cfg) (fallbackLevel s)
         \<and> fallbacksCreated (trace s') = fallbacksCreated (trace s)
         \<and> length (failures (trace s')) = length (failures (trace s)) + maxRetries cfg"
proof -
  obtain k where k: "maxRetries cfg = Suc k" using pos by (cases "maxRetries cfg") auto
  from retries_within_tier [OF fe, of k cfg env ep mdl cfc tgt] r0 k
  obtain s1 where s1: "passes k cfg env ep mdl cfc tgt s = Continue s1"
      "retryCount s1 = retryCount s + k" "fallbackLevel s1 = fallbackLevel s"
      "currentApiCall s1 = currentApiCall s" "attempts s1 = attempts s + k"
      "attemptLevels (trace s1) = attemptLevels (trace s) @ replicate k (fallbackLevel s)"
      "fallbacksCreated (trace s1) = fallbacksCreated (trace s)"
      "length (failures (trace s1)) = length (failures (trace s)) + k"
    by auto
  from fe s1(4) obtain msg where msg: "currentApiCall s1 (attempts s1) = Rejected msg" "\<not> rateLimited msg"
    using failsEveryTimeD by metis
  have lt: "retryCount s1 < maxRetries cfg" using s1(2) r0 k by simp
  have stop: "maxRetries cfg \<le> Suc (retryCount s1) \<and>
                int (length (fallbackModels cfg)) - 1 \<le> fallbackLevel s1"
    using s1(2,3) r0 k lv by simp
  from pass_retry [OF msg lt, of env ep mdl cfc tgt] stop
  obtain s2 where s2: "iteration cfg env ep mdl cfc tgt s1 =
        Throw (Error (''Failed after '' @ decimal (maxRetries cfg) @
                    '' retry attempts on all models: '' @ messageText msg)) s2"
      "retryCount s2 = Suc (retryCount s1)" "fallbackLevel s2 = fallbackLevel s1"
      "currentApiCall s2 = currentApiCall s1" "attempts s2 = Suc (attempts s1)"
      "attemptLevels (trace s2) = attemptLevels (trace s1) @ [fallbackLevel s1]"
      "fallbacksCreated (trace s2) = fallbacksCreated (trace s1)"
      "failures (trace s2) = failures (trace s1) @ [msg]"
    by auto
  have "passes (maxRetries cfg) cfg env ep mdl cfc tgt s =
          Throw (Error (''Failed after '' @ decimal (maxRetries cfg) @
                    '' retry attempts on all models: '' @ messageText msg)) s2"
    using s1(1) s2(1) k by simp
  then show ?thesis using s1 s2 r0 k by (auto simp: replicate_append_same)
qed


lemma default_three_tiers:
  assumes fa: "failsEveryTime apiCall" and fb: "\<And>fm lvl. failsEveryTime (cfc fm lvl)"
  shows "\<exists>s3. passes 12 API_CONFIG env ep mdl cfc tgt (initialCascade apiCall q mon) = Continue s3
      \<and> retryCount s3 = 0 \<and> fallbackLevel s3 = 2
      \<and> currentApiCall s3 = cfc ''gpt-3.5-turbo'' 2 \<and> attempts s3 = 12
      \<and> attemptLevels (trace s3) = [-1, -1, -1, -1, 0, 0, 0, 0, 1, 1, 1, 1]
      \<and> fallbacksCreated (trace s3) = [(''gpt-4o-mini'', 0), (''gpt-4o'', 1), (''gpt-3.5-turbo'', 2)]
      \<and> length (failures (trace s3)) = 12"
proof -
  let ?P = "\<lambda>k s. passes k API_CONFIG env ep mdl cfc tgt s"
  let ?s0 = "initialCascade apiCall q mon"
  have cfg: "maxRetries API_CONFIG = 3" "int (length (fallbackModels API_CONFIG)) - 1 = 2"
    "fallbackModels API_CONFIG ! 0 = ''gpt-4o-mini''"
    "fallbackModels API_CONFIG ! 1 = ''gpt-4o''"
    "fallbackModels API_CONFIG ! 2 = ''gpt-3.5-turbo''"
    by (simp_all add: API_CONFIG_def)
  have s0: "retryCount ?s0 = 0" "fallbackLevel ?s0 = -1" "currentApiCall ?s0 = apiCall"
    "attempts ?s0 = 0" "trace ?s0 = []"
    by (simp_all add: initialCascade_def)
  from tier_exhausted_moves_on [of ?s0 API_CONFIG env ep mdl cfc tgt] fa s0 cfg
  obtain s1 where s1: "?P 4 ?s0 = Continue s1" "retryCount s1 = 0" "fallbackLevel s1 = 0"
      "currentApiCall s1 = cfc ''gpt-4o-mini'' 0" "attempts s1 = 4"
      "attemptLevels (trace s1) = [-1, -1, -1, -1]"
      "fallbacksCreated (trace s1) = [(''gpt-4o-mini'', 0)]"
      "length (failures (trace s1)) = 4"
    by (auto simp: numeral_eq_Suc)
  from tier_exhausted_moves_on [of s1 API_CONFIG env ep mdl cfc tgt] fb s1 cfg
  obtain s2 where s2: "?P 4 s1 = Continue s2" "retryCount s2 = 0" "fallbackLevel s2 = 1"
      "currentApiCall s2 = cfc ''gpt-4o'' 1" "attempts s2 = 8"
      "attemptLevels (trace s2) = [-1, -1, -1, -1, 0, 0, 0, 0]"
      "fallbacksCreated (trace s2) = [(''gpt-4o-mini'', 0), (''gpt-4o'', 1)]"
      "length (failures (trace s2)) = 8"
    by (auto simp: numeral_eq_Suc)
  from tier_exhausted_moves_on [of s2 API_CONFIG env ep mdl cfc tgt] fb s2 cfg
  obtain s3 where s3: "?P 4 s2 = Continue s3" "retryCount s3 = 0" "fallbackLevel s3 = 2"
      "currentApiCall s3 = cfc ''gpt-3.5-turbo'' 2" "attempts s3 = 12"
      "attemptLevels (trace s3) = [-1, -1, -1, -1, 0, 0, 0, 0, 1, 1, 1, 1]"
      "fallbacksCreated (trace s3) = [(''gpt-4o-mini'', 0), (''gpt-4o'', 1), (''gpt-3.5-turbo'', 2)]"
      "length (failures (trace s3)) = 12"
    by (auto simp: numeral_eq_Suc)
  have "?P (4 + (4 + 4)) ?s0 = Continue s3"
    using s1(1) s2(1) s3(1) by (simp only: passes_add step.case)
  then have "?P 12 ?s0 = Continue s3" by simp
  with s3 show ?thesis by blast
qed

lemma default_all_fail:
  assumes fa: "failsEveryTime apiCall" and fb: "\<And>fm lvl. failsEveryTime (cfc fm lvl)"
  shows "\<exists>s' msg.
      cascadeLoop API_CONFIG env ep mdl cfc tgt (initialCascade apiCall q mon) =
        Some (Inl (Error (''Failed after 3 retry attempts on all models: '' @ messageText msg)), s')
      \<and> failures (trace s') \<noteq> [] \<and> last (failures (trace s')) = msg
      \<and> attempts s' = 15
      \<and> attemptLevels (trace s') = [-1, -1, -1, -1, 0, 0, 0, 0, 1, 1, 1, 1, 2, 2, 2]
      \<and> fallbacksCreated (trace s') = [(''gpt-4o-mini'', 0), (''gpt-4o'', 1), (''gpt-3.5-turbo'', 2)]
      \<and> length (failures (trace s')) = 15
      \<and> retryCount s' = 3 \<and> fallbackLevel s' = 2"
proof -
  let ?P = "\<lambda>k s. passes k API_CONFIG env ep mdl cfc tgt s"
  let ?s0 = "initialCascade apiCall q mon"
  have cfg: "maxRetries API_CONFIG = 3" "int (length (fallbackModels API_CONFIG)) - 1 = 2"
    by (simp_all add: API_CONFIG_def)
  have dec: "decimal 3 = ''3''" by (simp add: decimal.simps)
  from default_three_tiers [of apiCall cfc env ep mdl tgt q mon, OF fa fb]
  obtain s3 where s3: "?P 12 ?s0 = Continue s3" "retryCount s3 = 0" "fallbackLevel s3 = 2"
      "currentApiCall s3 = cfc ''gpt-3.5-turbo'' 2" "attempts s3 = 12"
      "attemptLevels (trace s3) = [-1, -1, -1, -1, 0, 0, 0, 0, 1, 1, 1, 1]"
      "fallbacksCreated (trace s3) = [(''gpt-4o-mini'', 0), (''gpt-4o'', 1), (''gpt-3.5-turbo'', 2)]"
      "length (failures (trace s3)) = 12"
    by blast
  from last_tier_exhausted_throws [of s3 API_CONFIG env ep mdl cfc tgt] fb s3 cfg dec
  obtain s4 msg where s4:
      "?P 3 s3 = Throw (Error (''Failed after 3 retry attempts on all models: '' @ messageText msg)) s4"
      "failures (trace s4) \<noteq> []" "last (failures (trace s4)) = msg"
      "retryCount s4 = 3" "fallbackLevel s4 = 2" "attempts s4 = 15"
      "attemptLevels (trace s4) = [-1, -1, -1, -1, 0, 0, 0, 0, 1, 1, 1, 1, 2, 2, 2]"
      "fallbacksCreated (trace s4) = [(''gpt-4o-mini'', 0), (''gpt-4o'', 1), (''gpt-3.5-turbo'', 2)]"
      "length (failures (trace s4)) = 15"
    by (auto simp: numeral_eq_Suc)
  have "?P (12 + 3) ?s0 =
          Throw (Error (''Failed after 3 retry attempts on all models: '' @ messageText msg)) s4"
    using s3(1) s4(1) by (simp only: passes_add step.case)
  then have "cascadeLoop API_CONFIG env ep mdl cfc tgt ?s0 =
          Some (Inl (Error (''Failed after 3 retry attempts on all models: '' @ messageText msg)), s4)"
    using cascadeLoop_passes [of API_CONFIG env ep mdl cfc tgt ?s0 "12 + 3"]
    by (simp only: step.case)
  with s4 show ?thesis by blast
qed


lemma passes_Suc_front:
  "passes (Suc k) cfg env ep mdl cfc tgt s =
     (case iteration cfg env ep mdl cfc tgt s of
        Continue s' \<Rightarrow> passes k cfg env ep mdl cfc tgt s'
      | Return r s' \<Rightarrow> Return r s'
      | Throw m s' \<Rightarrow> Throw m s')"
  using passes_add [of 1 k cfg env ep mdl cfc tgt s] by simp

text \<open>A run that returns or throws does so after finitely many passes.\<close>

lemma cascadeLoop_ends:
  assumes run: "cascadeLoop cfg env ep mdl cfc tgt s = Some y"
  shows "\<exists>k. (\<exists>r s'. passes k cfg env ep mdl cfc tgt s = Return r s' \<and> y = (Inr r, s')) \<or>
             (\<exists>m s'. passes k cfg env ep mdl cfc tgt s = Throw m s' \<and> y = (Inl m, s'))"
proof -
  let ?E = "\<lambda>cfg env ep mdl cfc tgt s y.
     \<exists>k. (\<exists>r s'. passes k cfg env ep mdl cfc tgt s = Return r s' \<and> y = (Inr r, s')) \<or>
         (\<exists>m s'. passes k cfg env ep mdl cfc tgt s = Throw m s' \<and> y = (Inl m, s'))"
  show ?thesis
  proof (rule cascadeLoop.raw_induct [where P = ?E, OF _ run])
    fix loop cfg env ep mdl cfc tgt s y
    assume IH: "\<And>a b c d e f g z. loop a b c d e f g = Some z \<Longrightarrow> ?E a b c d e f g z"
      and step: "(case iteration cfg env ep mdl cfc tgt s of
                    Continue s' \<Rightarrow> loop cfg env ep mdl cfc tgt s'
                  | Return result s' \<Rightarrow> Some (Inr result, s')
                  | Throw m s' \<Rightarrow> Some (Inl m, s')) = Some y"
    show "?E cfg env ep mdl cfc tgt s y"
    proof (cases "iteration cfg env ep mdl cfc tgt s")
      case (Continue s1)
      with step have "loop cfg env ep mdl cfc tgt s1 = Some y" by simp
      from IH [OF this] obtain k where
        "(\<exists>r s'. passes k cfg env ep mdl cfc tgt s1 = Return r s' \<and> y = (Inr r, s')) \<or>
         (\<exists>m s'. passes k cfg env ep mdl cfc tgt s1 = Throw m s' \<and> y = (Inl m, s'))" by blast
      then have "(\<exists>r s'. passes (Suc k) cfg env ep mdl cfc tgt s = Return r s' \<and> y = (Inr r, s')) \<or>
         (\<exists>m s'. passes (Suc k) cfg env ep mdl cfc tgt s = Throw m s' \<and> y = (Inl m, s'))"
        by (simp only: passes_Suc_front Continue step.case)
      then show ?thesis by blast
    next
      case (Return r s1)
      with step have "y = (Inr r, s1)" by simp
      with Return have "passes (Suc 0) cfg env ep mdl cfc tgt s = Return r s1 \<and> y = (Inr r, s1)"
        by simp
      then show ?thesis by blast
    next
      case (Throw m s1)
      with step have "y = (Inl m, s1)" by simp
      with Throw have "passes (Suc 0) cfg env ep mdl cfc tgt s = Throw m s1 \<and> y = (Inl m, s1)"
        by simp
      then show ?thesis by blast
    qed
  qed
qed


lemma alwaysRateLimitedD:
  "alwaysRateLimited c \<Longrightarrow> \<exists>msg. c n = Rejected msg \<and> rateLimited msg"
  unfolding alwaysRateLimited_def by (erule allE [of _ n]) (auto split: outcome.splits)

lemma rate_limited_passes:
  assumes arl: "alwaysRateLimited (currentApiCall s)"
    and lv: "fallbackLevel s < int (length (fallbackModels cfg)) - 1"
  shows "\<exists>s'. passes k cfg env ep mdl cfc tgt s = Continue s'
         \<and> retryCount s' = retryCount s + k \<and> fallbackLevel s' = fallbackLevel s
         \<and> currentApiCall s' = currentApiCall s \<and> attempts s' = attempts s + k
         \<and> fallbacksCreated (trace s') = fallbacksCreated (trace s)"
proof (induction k)
  case 0
  show ?case by simp
next
  case (Suc k)
  then obtain s1 where s1: "passes k cfg env ep mdl cfc tgt s = Continue s1"
      "retryCount s1 = retryCount s + k" "fallbackLevel s1 = fallbackLevel s"
      "currentApiCall s1 = currentApiCall s" "attempts s1 = attempts s + k"
      "fallbacksCreated (trace s1) = fallbacksCreated (trace s)"
    by blast
  from arl s1(4) obtain msg where msg: "currentApiCall s1 (attempts s1) = Rejected msg" "rateLimited msg"
    using alwaysRateLimitedD by metis
  from pass_rate_limited [OF msg, of cfg env ep mdl cfc tgt] lv s1(3)
  obtain s2 where s2: "iteration cfg env ep mdl cfc tgt s1 = Continue s2"
      "retryCount s2 = Suc (retryCount s1)" "fallbackLevel s2 = fallbackLevel s1"
      "currentApiCall s2 = currentApiCall s1" "attempts s2 = Suc (attempts s1)"
      "trace s2 = trace s1 @ snd (admit cfg env (attempts s1) (queue s1)) @
              [Attempt (fallbackLevel s1) (retryCount s1), Failed msg,
               Waited (5000 + getRetryDelay cfg (random env (attempts s1)) (retryCount s1))]"
    by auto
  show ?case using s1 s2 by simp
qed

text \<open>
  C4. When an attempt fails with a message that contains \<^verbatim>\<open>429\<close>, the pass waits
  \<open>5000 + getRetryDelay retryCount\<close> milliseconds, adds one to \<^verbatim>\<open>retryCount\<close>, and keeps
  the fallback level and the call it was using: no fallback call is created. It may then
  throw, on the last tier, but it never moves to another tier. So on a tier that is not the
  last one, a call that is rate limited at every attempt is retried for ever: the loop
  never returns, and after any number of passes the level and the call are the ones it
  started with and no fallback call has been created.
\<close>

theorem C4_rate_limit_same_tier:
  "(currentApiCall s (attempts s) = Rejected msg \<and> rateLimited msg \<longrightarrow>
      (\<exists>s'. (iteration cfg env ep mdl cfc tgt s = Continue s' \<or>
              iteration cfg env ep mdl cfc tgt s =
                Throw (Error (''Failed after '' @ decimal (maxRetries cfg) @
                       '' retry attempts on all models: '' @ messageText msg)) s')
         \<and> retryCount s' = Suc (retryCount s) \<and> fallbackLevel s' = fallbackLevel s
         \<and> currentApiCall s' = currentApiCall s
         \<and> trace s' = trace s @ snd (admit cfg env (attempts s) (queue s)) @
              [Attempt (fallbackLevel s) (retryCount s), Failed msg,
               Waited (5000 + getRetryDelay cfg (random env (attempts s)) (retryCount s))]))
   \<and> (alwaysRateLimited (currentApiCall s) \<and>
        fallbackLevel s < int (length (fallbackModels cfg)) - 1 \<longrightarrow>
        cascadeLoop cfg env ep mdl cfc tgt s = None \<and>
        (\<forall>k. \<exists>s'. passes k cfg env ep mdl cfc tgt s = Continue s'
               \<and> retryCount s' = retryCount s + k \<and> fallbackLevel s' = fallbackLevel s
               \<and> currentApiCall s' = currentApiCall s \<and> attempts s' = attempts s + k
               \<and> fallbacksCreated (trace s') = fallbacksCreated (trace s)))"
proof (intro conjI impI)
  assume "currentApiCall s (attempts s) = Rejected msg \<and> rateLimited msg"
  then have rej: "currentApiCall s (attempts s) = Rejected msg" and rl: "rateLimited msg" by auto
  from pass_rate_limited [OF rej rl, of cfg env ep mdl cfc tgt]
  obtain s' where s': "iteration cfg env ep mdl cfc tgt s =
           (if maxRetries cfg \<le> Suc (retryCount s) \<and>
               int (length (fallbackModels cfg)) - 1 \<le> fallbackLevel s
            then Throw (Error (''Failed after '' @ decimal (maxRetries cfg) @
                        '' retry attempts on all models: '' @ messageText msg)) s'
            else Continue s')"
      "retryCount s' = Suc (retryCount s)" "fallbackLevel s' = fallbackLevel s"
      "currentApiCall s' = currentApiCall s"
      "trace s' = trace s @ snd (admit cfg env (attempts s) (queue s)) @
              [Attempt (fallbackLevel s) (retryCount s), Failed msg,
               Waited (5000 + getRetryDelay cfg (random env (attempts s)) (retryCount s))]"
    by blast
  from s'(1) have "iteration cfg env ep mdl cfc tgt s = Continue s' \<or>
              iteration cfg env ep mdl cfc tgt s =
                Throw (Error (''Failed after '' @ decimal (maxRetries cfg) @
                       '' retry attempts on all models: '' @ messageText msg)) s'"
    by (simp split: if_splits)
  with s'(2-5) show "\<exists>s'. (iteration cfg env ep mdl cfc tgt s = Continue s' \<or>
              iteration cfg env ep mdl cfc tgt s =
                Throw (Error (''Failed after '' @ decimal (maxRetries cfg) @
                       '' retry attempts on all models: '' @ messageText msg)) s')
         \<and> retryCount s' = Suc (retryCount s) \<and> fallbackLevel s' = fallbackLevel s
         \<and> currentApiCall s' = currentApiCall s
         \<and> trace s' = trace s @ snd (admit cfg env (attempts s) (queue s)) @
              [Attempt (fallbackLevel s) (retryCount s), Failed msg,
               Waited (5000 + getRetryDelay cfg (random env (attempts s)) (retryCount s))]"
    by blast
next
  assume h: "alwaysRateLimited (currentApiCall s) \<and>
        fallbackLevel s < int (length (fallbackModels cfg)) - 1"
  show "cascadeLoop cfg env ep mdl cfc tgt s = None"
  proof (cases "cascadeLoop cfg env ep mdl cfc tgt s")
    case None
    then show ?thesis .
  next
    case (Some y)
    from cascadeLoop_ends [OF Some] obtain k where
      k: "(\<exists>r s'. passes k cfg env ep mdl cfc tgt s = Return r s' \<and> y = (Inr r, s')) \<or>
          (\<exists>m s'. passes k cfg env ep mdl cfc tgt s = Throw m s' \<and> y = (Inl m, s'))" by blast
    from rate_limited_passes [of s cfg k env ep mdl cfc tgt] h
    obtain s' where "passes k cfg env ep mdl cfc tgt s = Continue s'" by blast
    with k show ?thesis by auto
  qed
next
  assume h: "alwaysRateLimited (currentApiCall s) \<and>
        fallbackLevel s < int (length (fallbackModels cfg)) - 1"
  show "\<forall>k. \<exists>s'. passes k cfg env ep mdl cfc tgt s = Continue s'
               \<and> retryCount s' = retryCount s + k \<and> fallbackLevel s' = fallbackLevel s
               \<and> currentApiCall s' = currentApiCall s \<and> attempts s' = attempts s + k
               \<and> fallbacksCreated (trace s') = fallbacksCreated (trace s)"
    using rate_limited_passes [of s cfg _ env ep mdl cfc tgt] h by blast
qed

theorem C4_witness:
  "alwaysRateLimited tooManyRequests \<and>
   rateLimited (Some ''API request failed: 429 Too Many Requests - slow down'') \<and>
   fallbackLevel (initialCascade tooManyRequests apiRequestQueue apiUsageMonitor)
     < int (length (fallbackModels API_CONFIG)) - 1 \<and>
   retryCount (stateOf (iteration API_CONFIG spacedClock ''chat'' ''gpt-4o''
      (sameCallForEveryTier tooManyRequests) False
      (initialCascade tooManyRequests apiRequestQueue apiUsageMonitor))) = 1 \<and>
   fallbackLevel (stateOf (iteration API_CONFIG spacedClock ''chat'' ''gpt-4o''
      (sameCallForEveryTier tooManyRequests) False
      (initialCascade tooManyRequests apiRequestQueue apiUsageMonitor))) = -1 \<and>
   makeApiRequestWithMultiFallback API_CONFIG spacedClock ''chat'' ''gpt-4o'' tooManyRequests
     (sameCallForEveryTier tooManyRequests) False apiRequestQueue apiUsageMonitor = None"
proof -
  let ?s0 = "initialCascade tooManyRequests apiRequestQueue apiUsageMonitor"
  let ?msg = "Some ''API request failed: 429 Too Many Requests - slow down''"
  let ?it = "iteration API_CONFIG spacedClock ''chat'' ''gpt-4o''
      (sameCallForEveryTier tooManyRequests) False ?s0"
  have rl: "rateLimited ?msg" by (simp add: rateLimited_def)
  have a: "alwaysRateLimited tooManyRequests"
    using rl by (simp add: alwaysRateLimited_def tooManyRequests_def)
  have b: "fallbackLevel ?s0 < int (length (fallbackModels API_CONFIG)) - 1"
    by (simp add: initialCascade_def API_CONFIG_def)
  have c: "currentApiCall ?s0 = tooManyRequests" "retryCount ?s0 = 0" "fallbackLevel ?s0 = -1"
    by (simp_all add: initialCascade_def)
  have d: "currentApiCall ?s0 (attempts ?s0) = Rejected ?msg"
    by (simp add: initialCascade_def tooManyRequests_def)
  note inst = C4_rate_limit_same_tier [of ?s0 ?msg API_CONFIG spacedClock "''chat''" "''gpt-4o''"
      "sameCallForEveryTier tooManyRequests" False]
  from inst d rl obtain s' where s': "?it = Continue s' \<or>
      ?it = Throw (Error (''Failed after '' @ decimal (maxRetries API_CONFIG) @
                   '' retry attempts on all models: '' @ messageText ?msg)) s'"
      "retryCount s' = Suc (retryCount ?s0)" "fallbackLevel s' = fallbackLevel ?s0"
    by blast
  from s'(1) have "stateOf ?it = s'" by auto
  with s'(2,3) c have e: "retryCount (stateOf ?it) = 1" "fallbackLevel (stateOf ?it) = -1"
    by simp_all
  from inst a b c(1)
  have "cascadeLoop API_CONFIG spacedClock ''chat'' ''gpt-4o'' (sameCallForEveryTier tooManyRequests)
     False ?s0 = None"
    by simp
  then have f: "makeApiRequestWithMultiFallback API_CONFIG spacedClock ''chat'' ''gpt-4o''
     tooManyRequests (sameCallForEveryTier tooManyRequests) False apiRequestQueue apiUsageMonitor = None"
    by (simp add: makeApiRequestWithMultiFallback_def)
  from rl a b e f show ?thesis by blast
qed









lemma serverError_fails: "failsEveryTime serverError"
  by (simp add: failsEveryTime_def serverError_def rateLimited_def)

lemma serverError_factory_fails: "failsEveryTime (sameCallForEveryTier serverError fm level)"
  by (simp add: sameCallForEveryTier_def serverError_fails)


text \<open>
  C1, as the code has it. With the shipped configuration, three retries and three fallback
  models, and calls that fail at every attempt with an error that is not a rate limit, the
  run visits the primary call and then the fallback tiers 0, 1 and 2 in this order, asks
  the factory for one call per fallback tier, makes at least \<^verbatim>\<open>maxRetries\<close> attempts on
  each of the four, never sees a success, and throws once the last tier has used its
  retries.
\<close>

theorem C1_default_cascade_exhausts:
  assumes "failsEveryTime apiCall" and "\<forall>fm level. failsEveryTime (cfc fm level)"
  shows "\<exists>t s. makeApiRequestWithMultiFallback API_CONFIG env ep mdl apiCall cfc tgt q mon
                 = Some (Inl (Error t), s)
     \<and> remdups_adj (attemptLevels (trace s)) = [-1, 0, 1, 2]
     \<and> fallbacksCreated (trace s) = [(''gpt-4o-mini'', 0), (''gpt-4o'', 1), (''gpt-3.5-turbo'', 2)]
     \<and> maxRetries API_CONFIG \<le> count_list (attemptLevels (trace s)) (-1)
     \<and> maxRetries API_CONFIG \<le> count_list (attemptLevels (trace s)) 0
     \<and> maxRetries API_CONFIG \<le> count_list (attemptLevels (trace s)) 1
     \<and> maxRetries API_CONFIG \<le> count_list (attemptLevels (trace s)) 2
     \<and> length (failures (trace s)) = attempts s
     \<and> maxRetries API_CONFIG \<le> retryCount s
     \<and> fallbackLevel s = int (length (fallbackModels API_CONFIG)) - 1"
proof -
  from assms have fb: "\<And>fm lvl. failsEveryTime (cfc fm lvl)" by blast
  from default_all_fail [of apiCall cfc env ep mdl tgt q mon, OF assms(1) fb]
  obtain s msg where s:
    "cascadeLoop API_CONFIG env ep mdl cfc tgt (initialCascade apiCall q mon) =
        Some (Inl (Error (''Failed after 3 retry attempts on all models: '' @ messageText msg)), s)"
    "attempts s = 15"
    "attemptLevels (trace s) = [-1, -1, -1, -1, 0, 0, 0, 0, 1, 1, 1, 1, 2, 2, 2]"
    "fallbacksCreated (trace s) = [(''gpt-4o-mini'', 0), (''gpt-4o'', 1), (''gpt-3.5-turbo'', 2)]"
    "length (failures (trace s)) = 15" "retryCount s = 3" "fallbackLevel s = 2"
    by blast
  have cfg: "maxRetries API_CONFIG = 3" "int (length (fallbackModels API_CONFIG)) - 1 = 2"
    by (simp_all add: API_CONFIG_def)
  show ?thesis
    unfolding makeApiRequestWithMultiFallback_def
    using s cfg by simp
qed

theorem C1_witness:
  "failsEveryTime serverError \<and>
   tiersVisited (makeApiRequestWithMultiFallback API_CONFIG spacedClock ''chat'' ''gpt-4o''
      serverError (sameCallForEveryTier serverError) False apiRequestQueue apiUsageMonitor)
     = Some [-1, 0, 1, 2]"
proof -
  have f: "\<forall>fm level. failsEveryTime (sameCallForEveryTier serverError fm level)"
    using serverError_factory_fails by blast
  from C1_default_cascade_exhausts [of serverError "sameCallForEveryTier serverError"
      spacedClock "''chat''" "''gpt-4o''" False apiRequestQueue apiUsageMonitor,
      OF serverError_fails f]
  show ?thesis using serverError_fails by (auto simp: tiersVisited_def)
qed

text \<open>
  Against a server that answers 500 every time, the run makes 15 attempts, not 9, and goes
  through three fallback tiers, not two.
\<close>

theorem C1_counterexample:
  "attemptsMade (makeApiRequestWithMultiFallback API_CONFIG spacedClock ''chat'' ''gpt-4o''
      serverError (sameCallForEveryTier serverError) False apiRequestQueue apiUsageMonitor)
     = Some 15 \<and>
   (15::nat) \<noteq> 3 * maxRetries API_CONFIG \<and>
   tiersVisited (makeApiRequestWithMultiFallback API_CONFIG spacedClock ''chat'' ''gpt-4o''
      serverError (sameCallForEveryTier serverError) False apiRequestQueue apiUsageMonitor)
     = Some [-1, 0, 1, 2]"
proof -
  from default_all_fail [of serverError "sameCallForEveryTier serverError"
      spacedClock "''chat''" "''gpt-4o''" False apiRequestQueue apiUsageMonitor,
      OF serverError_fails serverError_factory_fails]
  show ?thesis
    by (auto simp: attemptsMade_def tiersVisited_def makeApiRequestWithMultiFallback_def
          API_CONFIG_def)
qed



section \<open>Properties of the stream decoder\<close>

lemma splitLines_nonempty: "splitLines s \<noteq> []"
  by (induction s) (auto split: list.splits)

lemma splitLines_append_newline:
  "splitLines (a @ 0x0A # b) = splitLines a @ splitLines b"
proof (induction a)
  case Nil
  show ?case by simp
next
  case (Cons c a)
  obtain l ls where s: "splitLines a = l # ls"
    using splitLines_nonempty [of a] by (cases "splitLines a") auto
  show ?case using Cons s by simp
qed

lemma trim_empty: "trim [] = []"
  by (simp add: trim_def)

lemma chunkLines_empty: "chunkLines [] = []"
  by (simp add: chunkLines_def trim_empty)

lemma chunkLines_append_newline:
  "chunkLines (a @ 0x0A # b) = chunkLines a @ chunkLines b"
  by (simp add: chunkLines_def splitLines_append_newline)

lemma processLines_append:
  "processLines tgt d (xs @ ys) = processLines tgt (processLines tgt d xs) ys"
  by (simp add: processLines_def)

lemma processChunk_empty: "processChunk tgt d [] = d"
  by (simp add: processChunk_def chunkLines_empty processLines_def)

lemma processChunk_append_newline:
  "processChunk tgt d (a @ 0x0A # b) = processChunk tgt (processChunk tgt d a) b"
  by (simp add: processChunk_def chunkLines_append_newline processLines_append)

lemma processChunk_newline_first:
  "processChunk tgt d (0x0A # b) = processChunk tgt d b"
  using processChunk_append_newline [of tgt d "[]" b] by (simp add: processChunk_empty)

lemma processChunk_newline_last:
  "processChunk tgt d (a @ [0x0A]) = processChunk tgt d a"
  using processChunk_append_newline [of tgt d a "[]"] by (simp add: processChunk_empty)

lemma decodeChunks_two:
  "decodeChunks tgt d [a, b] = processChunk tgt (processChunk tgt d a) b"
  by (simp add: decodeChunks_def)

lemma decodeChunks_one:
  "decodeChunks tgt d [a] = processChunk tgt d a"
  by (simp add: decodeChunks_def)

text \<open>
  C2, as the code has it. The decoder keeps nothing of a chunk for the next one: each
  chunk is cut into lines by itself. So delivering a stream \<open>S\<close> as the two chunks
  \<open>S[0..k)\<close> and \<open>S[k..]\<close> gives the same transcript, the same page updates and the same
  warnings as delivering it as one chunk whenever the cut falls at the end of a line: just
  after or just before a line feed, or at either end of the stream. This holds whatever
  the transcript, the page and the console are when the stream starts.
\<close>

theorem C2_split_at_line_boundary:
  "(k = 0 \<or> length S \<le> k \<or> S ! (k - 1) = 0x0A \<or> S ! k = 0x0A) \<longrightarrow>
   decodeChunks tgt d [take k S, drop k S] = decodeChunks tgt d [S]"
proof
  assume h: "k = 0 \<or> length S \<le> k \<or> S ! (k - 1) = 0x0A \<or> S ! k = 0x0A"
  show "decodeChunks tgt d [take k S, drop k S] = decodeChunks tgt d [S]"
  proof (cases "k = 0 \<or> length S \<le> k")
    case True
    then show ?thesis
      by (auto simp: decodeChunks_two decodeChunks_one processChunk_empty)
  next
    case False
    then have k: "0 < k" "k < length S" by auto
    with h have "S ! (k - 1) = 0x0A \<or> S ! k = 0x0A" by auto
    then show ?thesis
    proof
      assume nl: "S ! (k - 1) = 0x0A"
      from k have "take k S = take (k - 1) S @ [S ! (k - 1)]"
        using take_Suc_conv_app_nth [of "k - 1" S] by simp
      with nl have t: "take k S = take (k - 1) S @ [0x0A]" by simp
      have "S = take k S @ drop k S" by simp
      with t have S: "S = take (k - 1) S @ 0x0A # drop k S" by simp
      have "decodeChunks tgt d [S] =
          processChunk tgt (processChunk tgt d (take (k - 1) S)) (drop k S)"
        using processChunk_append_newline [of tgt d "take (k - 1) S" "drop k S"] S
        by (simp add: decodeChunks_one)
      moreover have "decodeChunks tgt d [take k S, drop k S] =
          processChunk tgt (processChunk tgt d (take (k - 1) S)) (drop k S)"
        by (simp add: decodeChunks_two t processChunk_newline_last)
      ultimately show ?thesis by simp
    next
      assume nl: "S ! k = 0x0A"
      from k have dr: "drop k S = 0x0A # drop (Suc k) S"
        using Cons_nth_drop_Suc [of k S] nl by simp
      have "S = take k S @ drop k S" by simp
      with dr have S: "S = take k S @ 0x0A # drop (Suc k) S" by simp
      have "decodeChunks tgt d [S] =
          processChunk tgt (processChunk tgt d (take k S)) (drop (Suc k) S)"
        using processChunk_append_newline [of tgt d "take k S" "drop (Suc k) S"] S
        by (simp add: decodeChunks_one)
      moreover have "decodeChunks tgt d [take k S, drop k S] =
          processChunk tgt (processChunk tgt d (take k S)) (drop (Suc k) S)"
        by (simp add: decodeChunks_two dr processChunk_newline_first)
      ultimately show ?thesis by simp
    qed
  qed
qed








lemma hello_decoded:
  "decodeChunks True newDecoder [helloStream]
     = \<lparr> streamedContent = js ''Hello'', rendered = [js ''Hel'', js ''Hello''], warnings = [] \<rparr>"
  by code_simp

lemma hello_split_decoded:
  "streamedContent (decodeChunks True newDecoder [take 20 helloStream, drop 20 helloStream]) = js ''lo''"
  by code_simp




theorem C2_witness:
  "helloStream ! (48 - 1) = 0x0A \<and>
   decodeChunks True newDecoder [take 48 helloStream, drop 48 helloStream]
     = decodeChunks True newDecoder [helloStream] \<and>
   streamedContent (decodeChunks True newDecoder [helloStream]) = js ''Hello''"
proof -
  have h: "helloStream ! (48 - 1) = 0x0A" by code_simp
  with C2_split_at_line_boundary [of 48 helloStream True newDecoder] hello_decoded
  show ?thesis by simp
qed

text \<open>
  The stream cut at offset 20, inside the first frame. In one chunk the transcript is
  \<^verbatim>\<open>Hello\<close>; in two, both halves of the first frame are skipped as malformed and the
  transcript is \<^verbatim>\<open>lo\<close>.
\<close>

theorem C2_counterexample:
  \<open>take 20 helloStream = js ''data: {"choices":[{"'' \<and>
   streamedContent (decodeChunks True newDecoder [take 20 helloStream, drop 20 helloStream]) = js ''lo'' \<and>
   streamedContent (decodeChunks True newDecoder [helloStream]) = js ''Hello'' \<and>
   js ''lo'' \<noteq> js ''Hello''\<close>
proof -
  have a: \<open>take 20 helloStream = js ''data: {"choices":[{"''\<close> by code_simp
  have b: "js ''lo'' \<noteq> js ''Hello''" by code_simp
  from a b hello_split_decoded hello_decoded show ?thesis by simp
qed



end
